theory Spec2Isabelle
  imports Main
begin

section \<open>Data model of \<open>pr_issue_sync.py\<close>\<close>

text \<open>
  The script talks to GitHub through two clients: PyGithub objects (REST) and
  \<open>requests.post\<close> against the GraphQL endpoint. Both are modelled as an environment
  of functions that answer each call; every call the program makes is recorded as an
  event, so that a theorem can say which calls a run makes and in which order.
\<close>

record GHConfig =
  token :: string
  organization :: string
  repository :: string
  project_number :: int
  graphql_url :: string
  rest_url :: string

text \<open>
  A \<open>ProjectItemHandler\<close> after \<open>__init__\<close>: its configuration and the project node id
  resolved at construction. \<open>handler_id\<close> stands for the identity of the Python object,
  which is the key of the \<open>lru_cache\<close> on \<open>get_project_fields\<close>.
\<close>

record ProjectItemHandler =
  gh_config :: GHConfig
  project_node_id :: string
  handler_id :: nat

text \<open>The attributes of a PyGithub pull request that the script reads.\<close>

record pull_request =
  pr_merged :: bool
  pr_state :: string
  pr_draft :: bool
  pr_assignees :: "string list"
  pr_user :: string

text \<open>The attributes of a PyGithub issue object that the script reads.\<close>

record gh_issue =
  gi_node_id :: string
  gi_state :: string
  gi_assignees :: "string list"

text \<open>A node of \<open>closingIssuesReferences\<close>: \<open>{id, body, number, title}\<close>.\<close>

record linked_issue =
  li_id :: string
  li_body :: string
  li_number :: int
  li_title :: string

record field_option =
  opt_id :: string
  opt_name :: string

record project_field =
  fld_id :: string
  fld_name :: string
  fld_options :: "field_option list"

record project_item =
  item_id :: string
  item_project_id :: string

text \<open>
  The parsed JSON body of a GraphQL response, by the shape of its \<open>data\<close>. In
  \<open>FieldsBody\<close> a node is \<open>None\<close> for a field that is not a single-select field (the
  empty dict \<open>{}\<close> of the response); in \<open>LinkedIssuesBody\<close> an edge is \<open>None\<close> when it
  has no \<open>node\<close>. \<open>OtherBody\<close> is any body without the path the caller subscripts, for
  instance \<open>{"errors": [...]}\<close>.
\<close>

datatype body =
    ProjectIdBody string
  | IssueInfoBody "project_item list"
  | FieldsBody "project_field option list"
  | LinkedIssuesBody "linked_issue option list"
  | MutationBody
  | OtherBody

text \<open>A GraphQL request: which of the script's five documents, with its variables.\<close>

datatype request =
    ProjectNodeIdQuery string int
  | IssueInfoQuery string
  | ProjectFieldsQuery string
  | LinkedIssuesQuery int string string
  | SetFieldOptionMutation string "string option" string string

text \<open>
  \<open>resp_json\<close> is \<open>None\<close> when the body is not valid JSON, so that \<open>response.json()\<close>
  raises.
\<close>

record http_response =
  status_code :: int
  resp_text :: string
  resp_json :: "body option"

text \<open>
  Every exception of the script is a value. The first three are the \<open>ValueError\<close>s
  raised by \<open>set_issue_status\<close> and \<open>get_status_field_id\<close>; \<open>QueryFailed\<close> is the
  \<open>Exception\<close> raised by \<open>run_graphql\<close>; \<open>SubscriptError\<close> is the \<open>KeyError\<close>,
  \<open>TypeError\<close> or \<open>IndexError\<close> of a subscript that the response does not have.
\<close>

datatype error =
    EitherMustBeProvided
  | OnlyOneMustBeProvided
  | FieldNotFound string
  | QueryFailed int string
  | RequestException
  | JSONDecodeError
  | SubscriptError
  | GithubException int

text \<open>The lines the script prints.\<close>

datatype message =
    LinkedIssues "linked_issue list"
  | NoAssigneesUsingAuthor "string list"
  | PRAssignees "string list"
  | PRIsMerged
  | ClosedIssue int
  | AlreadyClosed int
  | SetStatusDone int
  | PRClosedWithoutMerging
  | RemovedAssignees int
  | CouldNotRemoveAssignees int error
  | SetStatusSelected int
  | TargetStatus string
  | AssignedIssue int "string list"
  | CouldNotAssign int error

datatype event =
    RestGetPull int
  | RestGetIssue int
  | RestEditState int string
  | RestRemoveAssignees int "string list"
  | RestEditAssignees int "string list"
  | Post request
  | Print message

text \<open>
  The environment: what GitHub answers to each call. A REST call returns the object, or
  raises; an edit returns the issue as GitHub reports it afterwards, which PyGithub
  stores back into the object.
\<close>

record env =
  get_pull :: "int \<Rightarrow> error + pull_request"
  get_issue :: "int \<Rightarrow> error + gh_issue"
  edit_state :: "int \<Rightarrow> string \<Rightarrow> error + gh_issue"
  remove_from_assignees :: "int \<Rightarrow> string list \<Rightarrow> error + gh_issue"
  edit_assignees :: "int \<Rightarrow> string list \<Rightarrow> error + gh_issue"
  requests_post :: "request \<Rightarrow> error + http_response"

section \<open>Programs: a result or an exception, the cache, and the events\<close>

text \<open>
  The only state of the process is the \<open>lru_cache(maxsize=1)\<close> of
  \<open>get_project_fields\<close>: empty, or one entry keyed by the handler. A program maps the
  cache to its outcome (\<open>Inl\<close> an exception), the cache afterwards and the events it
  produced. Events and cache updates made before an exception stay.
\<close>

type_synonym cache = "(nat \<times> project_field list) option"

type_synonym 'a prog = "cache \<Rightarrow> (error + 'a) \<times> cache \<times> event list"

definition outcome :: "(error + 'a) \<times> cache \<times> event list \<Rightarrow> error + 'a" where
  "outcome r = fst r"

definition cache_after :: "(error + 'a) \<times> cache \<times> event list \<Rightarrow> cache" where
  "cache_after r = fst (snd r)"

definition events :: "(error + 'a) \<times> cache \<times> event list \<Rightarrow> event list" where
  "events r = snd (snd r)"

definition ret :: "'a \<Rightarrow> 'a prog" where
  "ret x c = (Inr x, c, [])"

definition raise :: "error \<Rightarrow> 'a prog" where
  "raise err c = (Inl err, c, [])"

definition bindE :: "'a prog \<Rightarrow> ('a \<Rightarrow> 'b prog) \<Rightarrow> 'b prog" where
  "bindE m f c =
     (case m c of
        (Inl err, c1, t1) \<Rightarrow> (Inl err, c1, t1)
      | (Inr x, c1, t1) \<Rightarrow> (case f x c1 of (r, c2, t2) \<Rightarrow> (r, c2, t1 @ t2)))"

text \<open>\<open>try: m  except Exception as e: handler e\<close>.\<close>

definition try_except :: "'a prog \<Rightarrow> (error \<Rightarrow> 'a prog) \<Rightarrow> 'a prog" where
  "try_except m handler c =
     (case m c of
        (Inl err, c1, t1) \<Rightarrow> (case handler err c1 of (r, c2, t2) \<Rightarrow> (r, c2, t1 @ t2))
      | (Inr x, c1, t1) \<Rightarrow> (Inr x, c1, t1))"

text \<open>An external call: the event, and what the environment answers.\<close>

definition call :: "event \<Rightarrow> error + 'a \<Rightarrow> 'a prog" where
  "call ev answer c = (answer, c, [ev])"

definition print :: "message \<Rightarrow> unit prog" where
  "print msg c = (Inr (), c, [Print msg])"

section \<open>The GraphQL client\<close>

text \<open>
  \<open>run_graphql\<close>: post, raise unless the status code is 200, return
  \<open>response.json()\<close>.
\<close>

definition run_graphql :: "env \<Rightarrow> request \<Rightarrow> body prog" where
  "run_graphql e req =
     bindE (call (Post req) (requests_post e req)) (\<lambda>response.
       if status_code response \<noteq> 200
       then raise (QueryFailed (status_code response) (resp_text response))
       else (case resp_json response of
               None \<Rightarrow> raise JSONDecodeError
             | Some b \<Rightarrow> ret b))"

text \<open>\<open>get_project_node_id\<close>: \<open>resp["data"]["organization"]["projectV2"]["id"]\<close>.\<close>

definition get_project_node_id :: "GHConfig \<Rightarrow> env \<Rightarrow> string prog" where
  "get_project_node_id cfg e =
     bindE (run_graphql e (ProjectNodeIdQuery (organization cfg) (project_number cfg))) (\<lambda>resp.
       case resp of ProjectIdBody i \<Rightarrow> ret i | _ \<Rightarrow> raise SubscriptError)"

text \<open>\<open>get_issue_info\<close>: \<open>resp["data"]["node"]["projectItems"]["nodes"]\<close>.\<close>

definition get_issue_info :: "env \<Rightarrow> string \<Rightarrow> project_item list prog" where
  "get_issue_info e issue_node_id =
     bindE (run_graphql e (IssueInfoQuery issue_node_id)) (\<lambda>resp.
       case resp of IssueInfoBody nodes \<Rightarrow> ret nodes | _ \<Rightarrow> raise SubscriptError)"

text \<open>
  \<open>get_project_fields\<close> under \<open>functools.lru_cache(maxsize=1)\<close>: a hit returns the
  stored list without running the body; a miss runs the body and, when it returns,
  stores the result as the single entry. A body that raises stores nothing.
\<close>

definition fetch_project_fields :: "ProjectItemHandler \<Rightarrow> env \<Rightarrow> project_field list prog" where
  "fetch_project_fields h e =
     bindE (run_graphql e (ProjectFieldsQuery (project_node_id h))) (\<lambda>resp.
       case resp of
         FieldsBody nodes \<Rightarrow> ret (map the (filter (\<lambda>n. n \<noteq> None) nodes))
       | _ \<Rightarrow> raise SubscriptError)"

definition cache_hit :: "ProjectItemHandler \<Rightarrow> cache \<Rightarrow> project_field list option" where
  "cache_hit h c =
     (case c of
        None \<Rightarrow> None
      | Some (k, fs) \<Rightarrow> if k = handler_id h then Some fs else None)"

definition get_project_fields :: "ProjectItemHandler \<Rightarrow> env \<Rightarrow> project_field list prog" where
  "get_project_fields h e c =
     (case cache_hit h c of
        Some fs \<Rightarrow> (Inr fs, c, [])
      | None \<Rightarrow>
          (case fetch_project_fields h e c of
             (Inl err, c1, t1) \<Rightarrow> (Inl err, c1, t1)
           | (Inr fs, c1, t1) \<Rightarrow> (Inr fs, Some (handler_id h, fs), t1)))"

text \<open>
  The inner loop of \<open>get_status_field_id\<close>: the id of the first option with the
  requested name, \<open>None\<close> when the loop ends without a \<open>break\<close>.
\<close>

fun find_option :: "field_option list \<Rightarrow> string \<Rightarrow> string option" where
  "find_option [] field_name = None"
| "find_option (option # opts) field_name =
     (if opt_name option = field_name then Some (opt_id option)
      else find_option opts field_name)"

text \<open>
  The outer loop, on the pair \<open>(field_id, option_id)\<close>, both \<open>None\<close> at the start. A
  field named \<open>Status\<close> overwrites \<open>field_id\<close>; \<open>option_id\<close> is overwritten only when
  an option matches.
\<close>

fun scan_fields ::
  "project_field list \<Rightarrow> string \<Rightarrow> string option \<times> string option \<Rightarrow> string option \<times> string option"
where
  "scan_fields [] field_name acc = acc"
| "scan_fields (field # rest) field_name (field_id, option_id) =
     (if fld_name field \<noteq> ''Status'' then scan_fields rest field_name (field_id, option_id)
      else scan_fields rest field_name
             (Some (fld_id field),
              (case find_option (fld_options field) field_name of
                 None \<Rightarrow> option_id
               | Some i \<Rightarrow> Some i)))"

text \<open>Python truthiness of \<open>str | None\<close> and of \<open>int | None\<close>.\<close>

definition truthy_str :: "string option \<Rightarrow> bool" where
  "truthy_str x = (case x of None \<Rightarrow> False | Some s \<Rightarrow> s \<noteq> [])"

definition truthy_int :: "int option \<Rightarrow> bool" where
  "truthy_int x = (case x of None \<Rightarrow> False | Some n \<Rightarrow> n \<noteq> 0)"

definition status_ids :: "project_field list \<Rightarrow> string \<Rightarrow> error + string \<times> string" where
  "status_ids project_fields field_name =
     (case scan_fields project_fields field_name (None, None) of
        (field_id, option_id) \<Rightarrow>
          if \<not> truthy_str field_id \<or> \<not> truthy_str option_id
          then Inl (FieldNotFound field_name)
          else (case (field_id, option_id) of
                  (Some f, Some i) \<Rightarrow> Inr (f, i)
                | _ \<Rightarrow> Inl (FieldNotFound field_name)))"

definition get_status_field_id ::
  "ProjectItemHandler \<Rightarrow> env \<Rightarrow> string \<Rightarrow> (string \<times> string) prog"
where
  "get_status_field_id h e field_name =
     bindE (get_project_fields h e) (\<lambda>project_fields.
       case status_ids project_fields field_name of
         Inl err \<Rightarrow> raise err
       | Inr ids \<Rightarrow> ret ids)"

definition set_field_option ::
  "ProjectItemHandler \<Rightarrow> env \<Rightarrow> string option \<Rightarrow> string \<Rightarrow> string \<Rightarrow> body prog"
where
  "set_field_option h e item field_id option_id =
     run_graphql e (SetFieldOptionMutation (project_node_id h) item field_id option_id)"

text \<open>
  Lines 57 to 61 of \<open>set_issue_status\<close>: the project item id from the issue number
  (\<open>is not None\<close>), else the node id as given.
\<close>

definition resolve_issue_id :: "env \<Rightarrow> int option \<Rightarrow> string option \<Rightarrow> string option prog" where
  "resolve_issue_id e issue_number issue_node_id =
     (case issue_number of
        Some n \<Rightarrow>
          bindE (call (RestGetIssue n) (get_issue e n)) (\<lambda>issue.
          bindE (get_issue_info e (gi_node_id issue)) (\<lambda>items.
            case items of
              [] \<Rightarrow> raise SubscriptError
            | item # _ \<Rightarrow> ret (Some (item_id item))))
      | None \<Rightarrow> ret issue_node_id)"

definition set_issue_status ::
  "ProjectItemHandler \<Rightarrow> env \<Rightarrow> string \<Rightarrow> int option \<Rightarrow> string option \<Rightarrow> unit prog"
where
  "set_issue_status h e status issue_number issue_node_id =
     (if \<not> truthy_int issue_number \<and> \<not> truthy_str issue_node_id
      then raise EitherMustBeProvided
      else if truthy_int issue_number \<and> truthy_str issue_node_id
      then raise OnlyOneMustBeProvided
      else
        bindE (resolve_issue_id e issue_number issue_node_id) (\<lambda>issue_id.
        bindE (get_status_field_id h e status) (\<lambda>(field_id, option_id).
        bindE (set_field_option h e issue_id field_id option_id) (\<lambda>_. ret ()))))"

definition get_pull_request_linked_issues ::
  "ProjectItemHandler \<Rightarrow> env \<Rightarrow> int \<Rightarrow> linked_issue list prog"
where
  "get_pull_request_linked_issues h e pr_number =
     bindE (run_graphql e
              (LinkedIssuesQuery pr_number (organization (gh_config h)) (repository (gh_config h))))
       (\<lambda>resp.
          case resp of
            LinkedIssuesBody edges \<Rightarrow> ret (map the (filter (\<lambda>edge. edge \<noteq> None) edges))
          | _ \<Rightarrow> raise SubscriptError)"

section \<open>\<open>sync_issue_status_with_pr\<close>\<close>

text \<open>
  The dict comprehension \<open>gh_issues\<close>: one \<open>get_issue\<close> per linked issue, a later
  entry with the same number replacing the earlier one.
\<close>

fun fetch_issues ::
  "env \<Rightarrow> linked_issue list \<Rightarrow> (int \<rightharpoonup> gh_issue) \<Rightarrow> (int \<rightharpoonup> gh_issue) prog"
where
  "fetch_issues e [] gh_issues = ret gh_issues"
| "fetch_issues e (issue # rest) gh_issues =
     bindE (call (RestGetIssue (li_number issue)) (get_issue e (li_number issue))) (\<lambda>g.
       fetch_issues e rest (gh_issues(li_number issue \<mapsto> g)))"

text \<open>
  The three loops. \<open>gh_issues\<close> holds the PyGithub objects; an edit that succeeds
  replaces the object's attributes by GitHub's answer.
\<close>

fun merged_loop ::
  "ProjectItemHandler \<Rightarrow> env \<Rightarrow> linked_issue list \<Rightarrow> (int \<rightharpoonup> gh_issue) \<Rightarrow> unit prog"
where
  "merged_loop h e [] gh_issues = ret ()"
| "merged_loop h e (issue # rest) gh_issues =
     (case gh_issues (li_number issue) of
        None \<Rightarrow> raise SubscriptError
      | Some gh_issue \<Rightarrow>
          bindE
            (if gi_state gh_issue = ''open''
             then
               bindE (call (RestEditState (li_number issue) ''closed'')
                        (edit_state e (li_number issue) ''closed'')) (\<lambda>g.
               bindE (print (ClosedIssue (li_number issue))) (\<lambda>_.
                 ret (gh_issues(li_number issue \<mapsto> g))))
             else
               bindE (print (AlreadyClosed (li_number issue))) (\<lambda>_. ret gh_issues))
            (\<lambda>gh_issues1.
          bindE (set_issue_status h e ''Done'' (Some (li_number issue)) None) (\<lambda>_.
          bindE (print (SetStatusDone (li_number issue))) (\<lambda>_.
            merged_loop h e rest gh_issues1))))"

fun closed_loop ::
  "ProjectItemHandler \<Rightarrow> env \<Rightarrow> linked_issue list \<Rightarrow> (int \<rightharpoonup> gh_issue) \<Rightarrow> unit prog"
where
  "closed_loop h e [] gh_issues = ret ()"
| "closed_loop h e (issue # rest) gh_issues =
     (case gh_issues (li_number issue) of
        None \<Rightarrow> raise SubscriptError
      | Some gh_issue \<Rightarrow>
          bindE
            (if gi_assignees gh_issue \<noteq> []
             then
               try_except
                 (bindE (call (RestRemoveAssignees (li_number issue) (gi_assignees gh_issue))
                          (remove_from_assignees e (li_number issue) (gi_assignees gh_issue)))
                    (\<lambda>g.
                  bindE (print (RemovedAssignees (li_number issue))) (\<lambda>_.
                    ret (gh_issues(li_number issue \<mapsto> g)))))
                 (\<lambda>err.
                  bindE (print (CouldNotRemoveAssignees (li_number issue) err)) (\<lambda>_.
                    ret gh_issues))
             else ret gh_issues)
            (\<lambda>gh_issues1.
          bindE (set_issue_status h e ''Selected for Development'' (Some (li_number issue)) None)
            (\<lambda>_.
          bindE (print (SetStatusSelected (li_number issue))) (\<lambda>_.
            closed_loop h e rest gh_issues1))))"

fun open_loop ::
  "ProjectItemHandler \<Rightarrow> env \<Rightarrow> string \<Rightarrow> string list \<Rightarrow> linked_issue list \<Rightarrow>
     (int \<rightharpoonup> gh_issue) \<Rightarrow> unit prog"
where
  "open_loop h e target_status assignees [] gh_issues = ret ()"
| "open_loop h e target_status assignees (issue # rest) gh_issues =
     (case gh_issues (li_number issue) of
        None \<Rightarrow> raise SubscriptError
      | Some gh_issue \<Rightarrow>
          bindE
            (if set (gi_assignees gh_issue) \<noteq> set assignees
             then
               try_except
                 (bindE (call (RestEditAssignees (li_number issue) assignees)
                          (edit_assignees e (li_number issue) assignees)) (\<lambda>g.
                  bindE (print (AssignedIssue (li_number issue) assignees)) (\<lambda>_.
                    ret (gh_issues(li_number issue \<mapsto> g)))))
                 (\<lambda>err.
                  bindE (print (CouldNotAssign (li_number issue) err)) (\<lambda>_.
                    ret gh_issues))
             else ret gh_issues)
            (\<lambda>gh_issues1.
          bindE (set_issue_status h e target_status (Some (li_number issue)) None) (\<lambda>_.
            open_loop h e target_status assignees rest gh_issues1)))"

text \<open>Lines 310 to 315: the PR's assignees, or its author when it has none.\<close>

definition target_assignees :: "pull_request \<Rightarrow> string list" where
  "target_assignees pr = (if pr_assignees pr = [] then [pr_user pr] else pr_assignees pr)"

definition sync_issue_status_with_pr :: "ProjectItemHandler \<Rightarrow> env \<Rightarrow> int \<Rightarrow> unit prog" where
  "sync_issue_status_with_pr h e pr_number =
     bindE (call (RestGetPull pr_number) (get_pull e pr_number)) (\<lambda>pr.
     bindE (get_pull_request_linked_issues h e pr_number) (\<lambda>linked_issues.
     bindE (print (LinkedIssues linked_issues)) (\<lambda>_.
     bindE (if pr_assignees pr = []
            then print (NoAssigneesUsingAuthor (target_assignees pr))
            else print (PRAssignees (target_assignees pr))) (\<lambda>_.
     bindE (fetch_issues e linked_issues Map.empty) (\<lambda>gh_issues.
       if pr_merged pr then
         bindE (print PRIsMerged) (\<lambda>_. merged_loop h e linked_issues gh_issues)
       else if pr_state pr = ''closed'' then
         bindE (print PRClosedWithoutMerging) (\<lambda>_. closed_loop h e linked_issues gh_issues)
       else
         bindE (print (TargetStatus (if pr_draft pr then ''In Development''
                                     else ''Ready For Review''))) (\<lambda>_.
           open_loop h e (if pr_draft pr then ''In Development'' else ''Ready For Review'')
             (target_assignees pr) linked_issues gh_issues))))))"

section \<open>Vocabulary of the properties\<close>

text \<open>The request that fetches the project's field table.\<close>

fun is_fields_query :: "event \<Rightarrow> bool" where
  "is_fields_query (Post (ProjectFieldsQuery p)) = True"
| "is_fields_query ev = False"

text \<open>The mutation that writes a field value.\<close>

fun is_mutation :: "event \<Rightarrow> bool" where
  "is_mutation (Post (SetFieldOptionMutation p i f v)) = True"
| "is_mutation ev = False"

text \<open>The calls of the GraphQL endpoint among the events.\<close>

fun is_post :: "event \<Rightarrow> bool" where
  "is_post (Post req) = True"
| "is_post ev = False"

text \<open>
  No option of a field named \<open>Status\<close> has the requested name; this holds in
  particular when no field is named \<open>Status\<close>.
\<close>

definition no_status_option :: "project_field list \<Rightarrow> string \<Rightarrow> bool" where
  "no_status_option fs name \<longleftrightarrow>
     (\<forall>f \<in> set fs. fld_name f = ''Status'' \<longrightarrow> (\<forall>opt \<in> set (fld_options f). opt_name opt \<noteq> name))"

text \<open>\<open>i\<close> is the id of an option called \<open>name\<close> of a field called \<open>Status\<close>.\<close>

definition status_option :: "project_field list \<Rightarrow> string \<Rightarrow> string \<Rightarrow> bool" where
  "status_option fs name i \<longleftrightarrow>
     (\<exists>f \<in> set fs. fld_name f = ''Status'' \<and>
        (\<exists>opt \<in> set (fld_options f). opt_name opt = name \<and> opt_id opt = i))"

text \<open>
  The three loops of \<open>sync_issue_status_with_pr\<close> have one shape: for each linked
  issue, a step on the issue object, then \<open>set_issue_status\<close>, then a step after it.
  The steps are lines 330 to 334 (close the issue if it is open), lines 346 to 353
  (remove the assignees, in a \<open>try\<close>) and lines 365 to 371 (assign, in a \<open>try\<close>).
\<close>

definition close_step ::
  "env \<Rightarrow> int \<Rightarrow> gh_issue \<Rightarrow> (int \<rightharpoonup> gh_issue) \<Rightarrow> (int \<rightharpoonup> gh_issue) prog"
where
  "close_step e n gh_issue gh_issues =
     (if gi_state gh_issue = ''open''
      then
        bindE (call (RestEditState n ''closed'') (edit_state e n ''closed'')) (\<lambda>g.
        bindE (print (ClosedIssue n)) (\<lambda>_. ret (gh_issues(n \<mapsto> g))))
      else bindE (print (AlreadyClosed n)) (\<lambda>_. ret gh_issues))"

definition remove_step ::
  "env \<Rightarrow> int \<Rightarrow> gh_issue \<Rightarrow> (int \<rightharpoonup> gh_issue) \<Rightarrow> (int \<rightharpoonup> gh_issue) prog"
where
  "remove_step e n gh_issue gh_issues =
     (if gi_assignees gh_issue \<noteq> []
      then
        try_except
          (bindE (call (RestRemoveAssignees n (gi_assignees gh_issue))
                   (remove_from_assignees e n (gi_assignees gh_issue))) (\<lambda>g.
           bindE (print (RemovedAssignees n)) (\<lambda>_. ret (gh_issues(n \<mapsto> g)))))
          (\<lambda>err. bindE (print (CouldNotRemoveAssignees n err)) (\<lambda>_. ret gh_issues))
      else ret gh_issues)"

definition assign_step ::
  "env \<Rightarrow> string list \<Rightarrow> int \<Rightarrow> gh_issue \<Rightarrow> (int \<rightharpoonup> gh_issue) \<Rightarrow> (int \<rightharpoonup> gh_issue) prog"
where
  "assign_step e assignees n gh_issue gh_issues =
     (if set (gi_assignees gh_issue) \<noteq> set assignees
      then
        try_except
          (bindE (call (RestEditAssignees n assignees) (edit_assignees e n assignees)) (\<lambda>g.
           bindE (print (AssignedIssue n assignees)) (\<lambda>_. ret (gh_issues(n \<mapsto> g)))))
          (\<lambda>err. bindE (print (CouldNotAssign n err)) (\<lambda>_. ret gh_issues))
      else ret gh_issues)"

fun issue_loop ::
  "(int \<Rightarrow> gh_issue \<Rightarrow> (int \<rightharpoonup> gh_issue) \<Rightarrow> (int \<rightharpoonup> gh_issue) prog) \<Rightarrow> string \<Rightarrow>
   (int \<Rightarrow> unit prog) \<Rightarrow> ProjectItemHandler \<Rightarrow> env \<Rightarrow> linked_issue list \<Rightarrow>
   (int \<rightharpoonup> gh_issue) \<Rightarrow> unit prog"
where
  "issue_loop step status after h e [] gh_issues = ret ()"
| "issue_loop step status after h e (issue # rest) gh_issues =
     (case gh_issues (li_number issue) of
        None \<Rightarrow> raise SubscriptError
      | Some gh_issue \<Rightarrow>
          bindE (step (li_number issue) gh_issue gh_issues) (\<lambda>gh_issues1.
          bindE (set_issue_status h e status (Some (li_number issue)) None) (\<lambda>_.
          bindE (after (li_number issue)) (\<lambda>_.
            issue_loop step status after h e rest gh_issues1))))"

text \<open>Lines 325 to 372: the branch on the pull request, with its loop.\<close>

definition sync_loops ::
  "ProjectItemHandler \<Rightarrow> env \<Rightarrow> pull_request \<Rightarrow> linked_issue list \<Rightarrow> (int \<rightharpoonup> gh_issue) \<Rightarrow>
     unit prog"
where
  "sync_loops h e pr linked_issues gh_issues =
     (if pr_merged pr then
        bindE (print PRIsMerged) (\<lambda>_. merged_loop h e linked_issues gh_issues)
      else if pr_state pr = ''closed'' then
        bindE (print PRClosedWithoutMerging) (\<lambda>_. closed_loop h e linked_issues gh_issues)
      else
        bindE (print (TargetStatus (if pr_draft pr then ''In Development''
                                    else ''Ready For Review''))) (\<lambda>_.
          open_loop h e (if pr_draft pr then ''In Development'' else ''Ready For Review'')
            (target_assignees pr) linked_issues gh_issues))"

text \<open>The status that a pull request asks for, and the step of its loop.\<close>

definition target_status :: "pull_request \<Rightarrow> string" where
  "target_status pr =
     (if pr_merged pr then ''Done''
      else if pr_state pr = ''closed'' then ''Selected for Development''
      else if pr_draft pr then ''In Development''
      else ''Ready For Review'')"

text \<open>An HTTP status code of the success class.\<close>

definition is_2xx :: "int \<Rightarrow> bool" where
  "is_2xx code \<longleftrightarrow> 200 \<le> code \<and> code < 300"

section \<open>The scenarios of the specification\<close>

definition cfg0 :: GHConfig where
  "cfg0 = \<lparr>token = ''t'', organization = ''bec-project'', repository = ''demo'',
           project_number = 1, graphql_url = ''https://api.github.com/graphql'',
           rest_url = ''https://api.github.com/repos/bec-project/demo/issues''\<rparr>"

definition h0 :: ProjectItemHandler where
  "h0 = \<lparr>gh_config = cfg0, project_node_id = ''PVT_1'', handler_id = 0\<rparr>"

definition status_field :: project_field where
  "status_field =
     \<lparr>fld_id = ''F_status'', fld_name = ''Status'',
      fld_options =
        [\<lparr>opt_id = ''o_selected'', opt_name = ''Selected for Development''\<rparr>,
         \<lparr>opt_id = ''o_backlog'', opt_name = ''Weekly Backlog''\<rparr>,
         \<lparr>opt_id = ''o_dev'', opt_name = ''In Development''\<rparr>,
         \<lparr>opt_id = ''o_review'', opt_name = ''Ready For Review''\<rparr>,
         \<lparr>opt_id = ''o_hold'', opt_name = ''On Hold''\<rparr>,
         \<lparr>opt_id = ''o_done'', opt_name = ''Done''\<rparr>]\<rparr>"

definition http_200 :: "body \<Rightarrow> error + http_response" where
  "http_200 b = Inr \<lparr>status_code = 200, resp_text = [], resp_json = Some b\<rparr>"

definition github_post :: "linked_issue option list \<Rightarrow> request \<Rightarrow> error + http_response" where
  "github_post edges req =
     (case req of
        ProjectNodeIdQuery owner n \<Rightarrow> http_200 (ProjectIdBody ''PVT_1'')
      | IssueInfoQuery node \<Rightarrow>
          http_200 (IssueInfoBody [\<lparr>item_id = ''item_'' @ node, item_project_id = ''PVT_1''\<rparr>])
      | ProjectFieldsQuery p \<Rightarrow> http_200 (FieldsBody [None, Some status_field])
      | LinkedIssuesQuery n owner repo \<Rightarrow> http_200 (LinkedIssuesBody edges)
      | SetFieldOptionMutation p i f v \<Rightarrow> http_200 MutationBody)"

definition github_issue :: "int \<Rightarrow> error + gh_issue" where
  "github_issue n =
     (if n = 10 then Inr \<lparr>gi_node_id = ''I_10'', gi_state = ''open'', gi_assignees = []\<rparr>
      else if n = 11 then Inr \<lparr>gi_node_id = ''I_11'', gi_state = ''closed'', gi_assignees = []\<rparr>
      else if n = 5 then
        Inr \<lparr>gi_node_id = ''I_5'', gi_state = ''open'', gi_assignees = [''alice'']\<rparr>
      else if n = 2 then Inr \<lparr>gi_node_id = ''I_2'', gi_state = ''open'', gi_assignees = []\<rparr>
      else Inl (GithubException 404))"

definition edge_to :: "int \<Rightarrow> string \<Rightarrow> linked_issue option" where
  "edge_to n node = Some \<lparr>li_id = node, li_body = [], li_number = n, li_title = []\<rparr>"

text \<open>GitHub with one pull request, answering every call.\<close>

definition github :: "pull_request \<Rightarrow> linked_issue option list \<Rightarrow> env" where
  "github pr edges =
     \<lparr>get_pull = (\<lambda>n. Inr pr),
      get_issue = github_issue,
      edit_state = (\<lambda>n st. map_sum id (\<lambda>g. g\<lparr>gi_state := st\<rparr>) (github_issue n)),
      remove_from_assignees = (\<lambda>n logins. map_sum id (\<lambda>g. g\<lparr>gi_assignees := []\<rparr>) (github_issue n)),
      edit_assignees = (\<lambda>n logins. map_sum id (\<lambda>g. g\<lparr>gi_assignees := logins\<rparr>) (github_issue n)),
      requests_post = github_post edges\<rparr>"

text \<open>PR 42 is merged and closes issue 10 (open) and issue 11 (already closed).\<close>

definition env_merged :: env where
  "env_merged =
     github \<lparr>pr_merged = True, pr_state = ''closed'', pr_draft = False, pr_assignees = [],
             pr_user = ''carol''\<rparr>
       [edge_to 10 ''I_10'', edge_to 11 ''I_11'']"


text \<open>
  PR 7 is closed without a merge; its linked issue 5 is assigned to alice, and GitHub
  refuses to remove assignees.
\<close>

definition env_closed :: env where
  "env_closed =
     (github \<lparr>pr_merged = False, pr_state = ''closed'', pr_draft = False, pr_assignees = [],
              pr_user = ''carol''\<rparr>
        [edge_to 5 ''I_5''])
     \<lparr>remove_from_assignees := (\<lambda>n logins. Inl (GithubException 403))\<rparr>"

text \<open>PR 3 is an open draft by bob without assignees; its linked issue is 2.\<close>

definition env_open :: env where
  "env_open =
     github \<lparr>pr_merged = False, pr_state = ''open'', pr_draft = True, pr_assignees = [],
             pr_user = ''bob''\<rparr>
       [edge_to 2 ''I_2'']"

text \<open>PR 4 is open and ready for review, assigned to dave; its linked issue is 2.\<close>

definition env_ready :: env where
  "env_ready =
     github \<lparr>pr_merged = False, pr_state = ''open'', pr_draft = False, pr_assignees = [''dave''],
             pr_user = ''bob''\<rparr>
       [edge_to 2 ''I_2'']"



text \<open>The GraphQL endpoint answers 201 with a body.\<close>

definition env_201 :: env where
  "env_201 =
     env_merged\<lparr>requests_post :=
       (\<lambda>req. Inr \<lparr>status_code = 201, resp_text = ''Created'', resp_json = Some MutationBody\<rparr>)\<rparr>"

section \<open>Properties\<close>

subsection \<open>Projections of the program combinators\<close>

lemma proj_simps [simp]:
  "outcome (r, c, t) = r" "cache_after (r, c, t) = c" "events (r, c, t) = t"
  by (simp_all add: outcome_def cache_after_def events_def)

lemma ret_simps [simp]:
  "outcome (ret x c) = Inr x" "cache_after (ret x c) = c" "events (ret x c) = []"
  by (simp_all add: ret_def)

lemma raise_simps [simp]:
  "outcome (raise err c) = Inl err" "cache_after (raise err c) = c" "events (raise err c) = []"
  by (simp_all add: raise_def)

lemma call_simps [simp]:
  "outcome (call ev a c) = a" "cache_after (call ev a c) = c" "events (call ev a c) = [ev]"
  by (simp_all add: call_def)

lemma print_simps [simp]:
  "outcome (print msg c) = Inr ()" "cache_after (print msg c) = c"
  "events (print msg c) = [Print msg]"
  by (simp_all add: print_def)

lemma outcome_bindE:
  "outcome (bindE m f c) =
     (case outcome (m c) of Inl err \<Rightarrow> Inl err | Inr x \<Rightarrow> outcome (f x (cache_after (m c))))"
  by (cases "m c" rule: prod_cases3) (auto simp: bindE_def split: sum.splits prod.splits)

lemma cache_after_bindE:
  "cache_after (bindE m f c) =
     (case outcome (m c) of
        Inl err \<Rightarrow> cache_after (m c)
      | Inr x \<Rightarrow> cache_after (f x (cache_after (m c))))"
  by (cases "m c" rule: prod_cases3) (auto simp: bindE_def split: sum.splits prod.splits)

lemma events_bindE:
  "events (bindE m f c) =
     (case outcome (m c) of
        Inl err \<Rightarrow> events (m c)
      | Inr x \<Rightarrow> events (m c) @ events (f x (cache_after (m c))))"
  by (cases "m c" rule: prod_cases3) (auto simp: bindE_def split: sum.splits prod.splits)

lemma outcome_try_except:
  "outcome (try_except m f c) =
     (case outcome (m c) of Inl err \<Rightarrow> outcome (f err (cache_after (m c))) | Inr x \<Rightarrow> Inr x)"
  by (cases "m c" rule: prod_cases3) (auto simp: try_except_def split: sum.splits prod.splits)

lemma cache_after_try_except:
  "cache_after (try_except m f c) =
     (case outcome (m c) of
        Inl err \<Rightarrow> cache_after (f err (cache_after (m c)))
      | Inr x \<Rightarrow> cache_after (m c))"
  by (cases "m c" rule: prod_cases3) (auto simp: try_except_def split: sum.splits prod.splits)

lemma events_try_except:
  "events (try_except m f c) =
     (case outcome (m c) of
        Inl err \<Rightarrow> events (m c) @ events (f err (cache_after (m c)))
      | Inr x \<Rightarrow> events (m c))"
  by (cases "m c" rule: prod_cases3) (auto simp: try_except_def split: sum.splits prod.splits)

lemmas bindE_proj = outcome_bindE cache_after_bindE events_bindE
lemmas try_proj = outcome_try_except cache_after_try_except events_try_except

subsection \<open>The GraphQL client\<close>

lemma run_graphql_outcome:
  "outcome (run_graphql e req c) =
     (case requests_post e req of
        Inl err \<Rightarrow> Inl err
      | Inr response \<Rightarrow>
          if status_code response \<noteq> 200
          then Inl (QueryFailed (status_code response) (resp_text response))
          else (case resp_json response of None \<Rightarrow> Inl JSONDecodeError | Some b \<Rightarrow> Inr b))"
  by (simp add: run_graphql_def bindE_proj split: sum.splits option.splits)

lemma run_graphql_cache [simp]: "cache_after (run_graphql e req c) = c"
  by (simp add: run_graphql_def bindE_proj split: sum.splits option.splits)

lemma run_graphql_events [simp]: "events (run_graphql e req c) = [Post req]"
  by (simp add: run_graphql_def bindE_proj split: sum.splits option.splits)

lemma get_issue_info_cache [simp]: "cache_after (get_issue_info e node c) = c"
  by (simp add: get_issue_info_def bindE_proj split: sum.splits body.splits)

lemma get_issue_info_events [simp]:
  "events (get_issue_info e node c) = [Post (IssueInfoQuery node)]"
  by (simp add: get_issue_info_def bindE_proj split: sum.splits body.splits)

lemma get_issue_info_indep:
  "outcome (get_issue_info e node c) = outcome (get_issue_info e node c0)"
  by (simp add: get_issue_info_def bindE_proj run_graphql_outcome
           split: sum.splits body.splits option.splits)

lemma fetch_project_fields_cache [simp]: "cache_after (fetch_project_fields h e c) = c"
  by (simp add: fetch_project_fields_def bindE_proj split: sum.splits body.splits)

lemma fetch_project_fields_events [simp]:
  "events (fetch_project_fields h e c) = [Post (ProjectFieldsQuery (project_node_id h))]"
  by (simp add: fetch_project_fields_def bindE_proj split: sum.splits body.splits)

lemma cache_hit_store [simp]: "cache_hit h (Some (handler_id h, fs)) = Some fs"
  by (simp add: cache_hit_def)

lemma get_project_fields_hit:
  "cache_hit h c = Some fs \<Longrightarrow> get_project_fields h e c = (Inr fs, c, [])"
  by (simp add: get_project_fields_def)

lemma get_project_fields_events:
  "events (get_project_fields h e c) =
     (if cache_hit h c = None then [Post (ProjectFieldsQuery (project_node_id h))] else [])"
  using fetch_project_fields_events [of h e c]
  by (cases "fetch_project_fields h e c" rule: prod_cases3)
     (auto simp: get_project_fields_def split: sum.splits)

lemma get_project_fields_stored:
  "outcome (get_project_fields h e c) = Inr fs \<Longrightarrow>
   cache_hit h (cache_after (get_project_fields h e c)) = Some fs"
  by (cases "fetch_project_fields h e c" rule: prod_cases3)
     (auto simp: get_project_fields_def split: sum.splits option.splits)

lemma get_project_fields_kept:
  "cache_hit h c = Some fs \<Longrightarrow> cache_after (get_project_fields h e c) = c"
  by (simp add: get_project_fields_hit)

lemma get_status_field_id_events:
  "events (get_status_field_id h e name c) = events (get_project_fields h e c)"
  by (simp add: get_status_field_id_def bindE_proj split: sum.splits)

lemma get_status_field_id_cache:
  "cache_after (get_status_field_id h e name c) = cache_after (get_project_fields h e c)"
  by (simp add: get_status_field_id_def bindE_proj split: sum.splits)

lemma get_status_field_id_outcome:
  "outcome (get_status_field_id h e name c) =
     (case outcome (get_project_fields h e c) of
        Inl err \<Rightarrow> Inl err
      | Inr fs \<Rightarrow> status_ids fs name)"
  by (simp add: get_status_field_id_def bindE_proj split: sum.splits)

lemma resolve_issue_id_cache [simp]: "cache_after (resolve_issue_id e num node c) = c"
  by (simp add: resolve_issue_id_def bindE_proj split: option.splits sum.splits list.splits)

lemma resolve_issue_id_events:
  "ev \<in> set (events (resolve_issue_id e num node c)) \<Longrightarrow>
   (\<exists>n. ev = RestGetIssue n) \<or> (\<exists>i. ev = Post (IssueInfoQuery i))"
  by (auto simp: resolve_issue_id_def bindE_proj split: option.splits sum.splits list.splits)

lemma set_field_option_simps [simp]:
  "cache_after (set_field_option h e item f v c) = c"
  "events (set_field_option h e item f v c) =
     [Post (SetFieldOptionMutation (project_node_id h) item f v)]"
  by (simp_all add: set_field_option_def)

text \<open>The definitions of the scenarios, for running them.\<close>

lemmas scenario_defs = cfg0_def h0_def status_field_def http_200_def github_post_def
  github_issue_def edge_to_def github_def env_merged_def env_closed_def env_open_def

subsection \<open>\<open>run_graphql\<close> and the HTTP status\<close>

text \<open>
  C7, as stated: \<open>run_graphql\<close> raises if and only if the HTTP status is not a 2xx
  status. It fails on the code: the test is \<open>status_code != 200\<close>, so a response with
  status 201 and a JSON body is in the success class and still raises.
\<close>

theorem run_graphql_201_raises:
  "is_2xx (status_code \<lparr>status_code = 201, resp_text = ''Created'', resp_json = Some MutationBody\<rparr>)
   \<and> requests_post env_201 (ProjectFieldsQuery ''PVT_1'')
       = Inr \<lparr>status_code = 201, resp_text = ''Created'', resp_json = Some MutationBody\<rparr>
   \<and> run_graphql env_201 (ProjectFieldsQuery ''PVT_1'') None
       = (Inl (QueryFailed 201 ''Created''), None, [Post (ProjectFieldsQuery ''PVT_1'')])"
  by (simp add: is_2xx_def env_201_def run_graphql_def bindE_def call_def raise_def)

text \<open>
  C7, amended: for a call that receives an HTTP response, \<open>run_graphql\<close> raises its
  ``Query failed'' exception if and only if the status code is not 200; with status 200
  it returns the parsed JSON body of the response. It posts the request exactly once
  and does not touch the cache.
\<close>

theorem run_graphql_raises_unless_200:
  assumes "requests_post e req = Inr response"
  shows "((\<exists>code text. outcome (run_graphql e req c) = Inl (QueryFailed code text))
            \<longleftrightarrow> status_code response \<noteq> 200)
       \<and> (status_code response \<noteq> 200 \<longrightarrow>
            outcome (run_graphql e req c)
              = Inl (QueryFailed (status_code response) (resp_text response)))
       \<and> (status_code response = 200 \<longrightarrow> resp_json response = Some b \<longrightarrow>
            outcome (run_graphql e req c) = Inr b)
       \<and> events (run_graphql e req c) = [Post req]
       \<and> cache_after (run_graphql e req c) = c"
  using assms by (auto simp: run_graphql_outcome split: option.splits)

theorem run_graphql_raises_unless_200_witness:
  "requests_post env_merged (ProjectFieldsQuery ''PVT_1'')
     = Inr \<lparr>status_code = 200, resp_text = [],
            resp_json = Some (FieldsBody [None, Some status_field])\<rparr>
   \<and> outcome (run_graphql env_merged (ProjectFieldsQuery ''PVT_1'') None)
       = Inr (FieldsBody [None, Some status_field])"
proof -
  let ?response = "\<lparr>status_code = 200, resp_text = [],
                    resp_json = Some (FieldsBody [None, Some status_field])\<rparr>"
  have post: "requests_post env_merged (ProjectFieldsQuery ''PVT_1'') = Inr ?response"
    by (simp add: env_merged_def github_def github_post_def http_200_def)
  from run_graphql_raises_unless_200
         [OF post, where b = "FieldsBody [None, Some status_field]" and c = None]
  have "outcome (run_graphql env_merged (ProjectFieldsQuery ''PVT_1'') None)
          = Inr (FieldsBody [None, Some status_field])"
    by simp
  with post show ?thesis by simp
qed

subsection \<open>The validation of \<open>set_issue_status\<close>\<close>

lemma set_issue_status_both_falsy:
  "\<not> truthy_int num \<Longrightarrow> \<not> truthy_str node \<Longrightarrow>
   set_issue_status h e status num node c = (Inl EitherMustBeProvided, c, [])"
  by (simp add: set_issue_status_def raise_def)

lemma set_issue_status_both_truthy:
  "truthy_int num \<Longrightarrow> truthy_str node \<Longrightarrow>
   set_issue_status h e status num node c = (Inl OnlyOneMustBeProvided, c, [])"
  by (simp add: set_issue_status_def raise_def)

lemma set_issue_status_valid:
  "truthy_int num \<noteq> truthy_str node \<Longrightarrow>
   set_issue_status h e status num node =
     bindE (resolve_issue_id e num node) (\<lambda>issue_id.
     bindE (get_status_field_id h e status) (\<lambda>(field_id, option_id).
     bindE (set_field_option h e issue_id field_id option_id) (\<lambda>_. ret ())))"
  by (auto simp: set_issue_status_def)

text \<open>
  C10: the validation tests truthiness. With \<open>issue_number = 0\<close> and no node id the
  call raises ``Either issue_number or issue_node_id must be provided'' without any
  call to GitHub. With \<open>issue_number = 0\<close> and a non-empty node id neither check
  fires: the run goes on with the issue-number path, whose first action is
  \<open>repo.get_issue(0)\<close>, and the node id has no influence on it.
\<close>

theorem set_issue_status_tests_truthiness:
  "set_issue_status h e status (Some 0) None c = (Inl EitherMustBeProvided, c, [])
   \<and> (node \<noteq> [] \<longrightarrow>
        (\<exists>t. events (set_issue_status h e status (Some 0) (Some node) c) = RestGetIssue 0 # t)
        \<and> (\<forall>node'. node' \<noteq> [] \<longrightarrow>
              set_issue_status h e status (Some 0) (Some node') c
                = set_issue_status h e status (Some 0) (Some node) c))"
proof -
  have valid: "truthy_int (Some 0) \<noteq> truthy_str (Some n)" if "n \<noteq> []" for n :: string
    using that by (simp add: truthy_int_def truthy_str_def)
  have path: "set_issue_status h e status (Some 0) (Some n) c
      = bindE (resolve_issue_id e (Some 0) None) (\<lambda>issue_id.
        bindE (get_status_field_id h e status) (\<lambda>(field_id, option_id).
        bindE (set_field_option h e issue_id field_id option_id) (\<lambda>_. ret ()))) c"
    if "n \<noteq> []" for n
    by (simp add: set_issue_status_valid [OF valid [OF that]] resolve_issue_id_def)
  have first: "\<exists>t. events (bindE (resolve_issue_id e (Some 0) None) f c) = RestGetIssue 0 # t"
    for f :: "string option \<Rightarrow> unit prog"
    by (simp add: resolve_issue_id_def bindE_proj split: sum.splits list.splits)
  show ?thesis
    by (auto simp: set_issue_status_both_falsy truthy_int_def truthy_str_def path first)
qed

theorem set_issue_status_tests_truthiness_witness:
  "''I_10'' \<noteq> []
   \<and> set_issue_status h0 env_merged ''Done'' (Some 0) None None = (Inl EitherMustBeProvided, None, [])
   \<and> (\<exists>t. events (set_issue_status h0 env_merged ''Done'' (Some 0) (Some ''I_10'') None)
            = RestGetIssue 0 # t)"
proof -
  note w = set_issue_status_tests_truthiness
             [where h = h0 and e = env_merged and status = "''Done''" and c = None
                and node = "''I_10''"]
  have nonempty: "''I_10'' \<noteq> []" by simp
  from w have a: "set_issue_status h0 env_merged ''Done'' (Some 0) None None
                    = (Inl EitherMustBeProvided, None, [])"
    by (rule conjunct1)
  from w have "''I_10'' \<noteq> [] \<longrightarrow>
        (\<exists>t. events (set_issue_status h0 env_merged ''Done'' (Some 0) (Some ''I_10'') None)
                = RestGetIssue 0 # t)
        \<and> (\<forall>node'. node' \<noteq> [] \<longrightarrow>
              set_issue_status h0 env_merged ''Done'' (Some 0) (Some node') None
                = set_issue_status h0 env_merged ''Done'' (Some 0) (Some ''I_10'') None)"
    by (rule conjunct2)
  with nonempty have b: "\<exists>t. events (set_issue_status h0 env_merged ''Done'' (Some 0) (Some ''I_10'') None)
                = RestGetIssue 0 # t"
    by blast
  from nonempty a b show ?thesis by blast
qed

text \<open>
  C5 at its failing inputs. The specification counts an argument as supplied when it is
  passed; the code counts it when it is truthy. An issue number 0 alone is rejected as
  if nothing had been supplied, and an issue number 0 together with a node id passes
  the validation and reaches GitHub, although both were supplied.
\<close>

theorem set_issue_status_number_zero:
  "set_issue_status h0 env_merged ''Done'' (Some 0) None None
     = (Inl EitherMustBeProvided, None, [])
   \<and> set_issue_status h0 env_merged ''Done'' (Some 0) (Some ''I_10'') None
     = (Inl (GithubException 404), None, [RestGetIssue 0])"
  by (simp add: set_issue_status_def resolve_issue_id_def truthy_int_def truthy_str_def
        bindE_def call_def raise_def env_merged_def github_def github_issue_def)

subsection \<open>Resolving a status name\<close>

lemma find_option_None:
  "\<forall>opt \<in> set opts. opt_name opt \<noteq> name \<Longrightarrow> find_option opts name = None"
  by (induction opts) auto

lemma find_option_Some:
  "find_option opts name = Some i \<Longrightarrow> \<exists>opt \<in> set opts. opt_name opt = name \<and> opt_id opt = i"
  by (induction opts) (auto split: if_splits)

lemma scan_fields_no_option:
  "no_status_option fs name \<Longrightarrow> snd (scan_fields fs name (fid, oid)) = oid"
proof (induction fs arbitrary: fid)
  case Nil
  show ?case by simp
next
  case (Cons f fs)
  from Cons.prems have rest: "no_status_option fs name"
    by (simp add: no_status_option_def)
  show ?case
  proof (cases "fld_name f = ''Status''")
    case True
    with Cons.prems have "find_option (fld_options f) name = None"
      by (intro find_option_None) (simp add: no_status_option_def)
    with True Cons.IH [OF rest] show ?thesis by simp
  next
    case False
    with Cons.IH [OF rest] show ?thesis by simp
  qed
qed

lemma status_ids_not_found:
  assumes "no_status_option fs name"
  shows "status_ids fs name = Inl (FieldNotFound name)"
proof -
  obtain fid oid where scan: "scan_fields fs name (None, None) = (fid, oid)"
    by (cases "scan_fields fs name (None, None)")
  from scan_fields_no_option [OF assms, of None None] scan have "oid = None" by simp
  with scan show ?thesis by (simp add: status_ids_def truthy_str_def)
qed

lemma scan_fields_sound:
  "scan_fields fs name (fid0, oid0) = (fid, oid) \<Longrightarrow>
   (fid = fid0 \<or> (\<exists>f \<in> set fs. fld_name f = ''Status'' \<and> fid = Some (fld_id f)))
   \<and> (oid = oid0 \<or> (\<exists>i. oid = Some i \<and> status_option fs name i))"
proof (induction fs arbitrary: fid0 oid0)
  case Nil
  then show ?case by simp
next
  case (Cons f fs)
  show ?case
  proof (cases "fld_name f = ''Status''")
    case False
    with Cons.prems have "scan_fields fs name (fid0, oid0) = (fid, oid)" by simp
    from Cons.IH [OF this] show ?thesis by (auto simp: status_option_def)
  next
    case True
    let ?oid1 = "case find_option (fld_options f) name of None \<Rightarrow> oid0 | Some i \<Rightarrow> Some i"
    from True Cons.prems have "scan_fields fs name (Some (fld_id f), ?oid1) = (fid, oid)"
      by simp
    from Cons.IH [OF this]
    have fid: "fid = Some (fld_id f) \<or> (\<exists>g \<in> set fs. fld_name g = ''Status'' \<and> fid = Some (fld_id g))"
      and oid: "oid = ?oid1 \<or> (\<exists>i. oid = Some i \<and> status_option fs name i)"
      by auto
    have here: "?oid1 = oid0 \<or> (\<exists>i. ?oid1 = Some i \<and> status_option (f # fs) name i)"
      using True by (auto simp: status_option_def split: option.splits dest: find_option_Some)
    have mono: "status_option fs name i \<Longrightarrow> status_option (f # fs) name i" for i
      by (auto simp: status_option_def)
    from fid True have "fid = fid0 \<or> (\<exists>g \<in> set (f # fs). fld_name g = ''Status'' \<and> fid = Some (fld_id g))"
      by auto
    moreover from oid here mono
    have "oid = oid0 \<or> (\<exists>i. oid = Some i \<and> status_option (f # fs) name i)"
      by metis
    ultimately show ?thesis by blast
  qed
qed

lemma status_ids_sound:
  assumes "status_ids fs name = Inr (fid, oid)"
  shows "(\<exists>f \<in> set fs. fld_name f = ''Status'' \<and> fld_id f = fid) \<and> status_option fs name oid"
proof -
  obtain a b where scan: "scan_fields fs name (None, None) = (a, b)"
    by (cases "scan_fields fs name (None, None)")
  with assms have ab: "a = Some fid" "b = Some oid"
    by (auto simp: status_ids_def split: if_splits option.splits)
  from scan_fields_sound [OF scan] ab show ?thesis by auto
qed

lemma get_project_fields_no_mutation:
  "ev \<in> set (events (get_project_fields h e c)) \<Longrightarrow> \<not> is_mutation ev"
  by (auto simp: get_project_fields_events split: if_splits)

lemma resolve_issue_id_no_mutation:
  "ev \<in> set (events (resolve_issue_id e num node c)) \<Longrightarrow> \<not> is_mutation ev"
  by (auto dest: resolve_issue_id_events)

text \<open>
  C6: when the project's field table has no option of that name in a field called
  \<open>Status\<close> (in particular when it has no such field), \<open>get_status_field_id\<close> raises
  its \<open>ValueError\<close>. \<open>set_issue_status\<close> then raises too and never posts the
  \<open>set_field_option\<close> mutation; what it raises is that \<open>ValueError\<close> whenever the
  validation passes and the project item of the issue is found.
\<close>

theorem unknown_status_is_rejected:
  assumes fields: "outcome (get_project_fields h e c) = Inr fs"
      and unknown: "no_status_option fs status"
  shows "outcome (get_status_field_id h e status c) = Inl (FieldNotFound status)
       \<and> (\<exists>err. outcome (set_issue_status h e status num node c) = Inl err)
       \<and> (\<forall>ev \<in> set (events (set_issue_status h e status num node c)). \<not> is_mutation ev)
       \<and> (truthy_int num \<noteq> truthy_str node \<longrightarrow>
            (\<exists>i. outcome (resolve_issue_id e num node c) = Inr i) \<longrightarrow>
            outcome (set_issue_status h e status num node c) = Inl (FieldNotFound status))"
proof -
  have lookup: "outcome (get_status_field_id h e status c) = Inl (FieldNotFound status)"
    using fields status_ids_not_found [OF unknown] by (simp add: get_status_field_id_outcome)
  show ?thesis
  proof (cases "truthy_int num \<noteq> truthy_str node")
    case False
    then have "set_issue_status h e status num node c = (Inl EitherMustBeProvided, c, [])
             \<or> set_issue_status h e status num node c = (Inl OnlyOneMustBeProvided, c, [])"
      using set_issue_status_both_falsy set_issue_status_both_truthy by blast
    with lookup False show ?thesis by auto
  next
    case True
    note eq = set_issue_status_valid [OF True, of h e status]
    have out: "outcome (set_issue_status h e status num node c) =
        (case outcome (resolve_issue_id e num node c) of
           Inl err \<Rightarrow> Inl err | Inr i \<Rightarrow> Inl (FieldNotFound status))"
      using lookup by (simp add: eq bindE_proj split: sum.splits)
    have ev: "set (events (set_issue_status h e status num node c))
        \<subseteq> set (events (resolve_issue_id e num node c)) \<union> set (events (get_project_fields h e c))"
      using lookup
      by (auto simp: eq bindE_proj get_status_field_id_events split: sum.splits)
    have "\<forall>ev \<in> set (events (set_issue_status h e status num node c)). \<not> is_mutation ev"
      using ev get_project_fields_no_mutation resolve_issue_id_no_mutation by blast
    moreover have "\<exists>err. outcome (set_issue_status h e status num node c) = Inl err"
      by (simp add: out split: sum.splits)
    moreover have "(\<exists>i. outcome (resolve_issue_id e num node c) = Inr i) \<longrightarrow>
            outcome (set_issue_status h e status num node c) = Inl (FieldNotFound status)"
      by (auto simp: out)
    ultimately show ?thesis using lookup by blast
  qed
qed

theorem unknown_status_is_rejected_witness:
  "outcome (get_project_fields h0 env_merged None) = Inr [status_field]
   \<and> no_status_option [status_field] ''Status That Does Not Exist''
   \<and> truthy_int (Some 10) \<noteq> truthy_str None
   \<and> outcome (resolve_issue_id env_merged (Some 10) None None) = Inr (Some ''item_I_10'')
   \<and> outcome (set_issue_status h0 env_merged ''Status That Does Not Exist'' (Some 10) None None)
       = Inl (FieldNotFound ''Status That Does Not Exist'')
   \<and> filter is_mutation (events (set_issue_status h0 env_merged ''Status That Does Not Exist''
                                  (Some 10) None None)) = []"
proof -
  have fields: "outcome (get_project_fields h0 env_merged None) = Inr [status_field]"
    by (simp add: get_project_fields_def cache_hit_def fetch_project_fields_def run_graphql_def
          bindE_def call_def ret_def raise_def env_merged_def github_def github_post_def
          http_200_def)
  have unknown: "no_status_option [status_field] ''Status That Does Not Exist''"
    by (simp add: no_status_option_def status_field_def)
  have valid: "truthy_int (Some 10) \<noteq> truthy_str None"
    by (simp add: truthy_int_def truthy_str_def)
  have item: "outcome (resolve_issue_id env_merged (Some 10) None None) = Inr (Some ''item_I_10'')"
    by (simp add: resolve_issue_id_def get_issue_info_def run_graphql_def
          bindE_def call_def ret_def raise_def env_merged_def github_def github_post_def
          github_issue_def http_200_def)
  note w = unknown_status_is_rejected [OF fields unknown, where num = "Some 10" and node = None]
  from w valid item
  have "outcome (set_issue_status h0 env_merged ''Status That Does Not Exist'' (Some 10) None None)
          = Inl (FieldNotFound ''Status That Does Not Exist'')"
    by blast
  moreover from w
  have "\<forall>ev \<in> set (events (set_issue_status h0 env_merged ''Status That Does Not Exist''
                            (Some 10) None None)). \<not> is_mutation ev"
    by blast
  then have "filter is_mutation (events (set_issue_status h0 env_merged
                ''Status That Does Not Exist'' (Some 10) None None)) = []"
    by (simp add: filter_empty_conv)
  ultimately show ?thesis using fields unknown valid item by blast
qed

subsection \<open>What a call of \<open>set_issue_status\<close> does\<close>

lemma set_issue_status_events:
  assumes "truthy_int num \<noteq> truthy_str node"
  shows "events (set_issue_status h e status num node c) =
     events (resolve_issue_id e num node c) @
     (case outcome (resolve_issue_id e num node c) of
        Inl err \<Rightarrow> []
      | Inr i \<Rightarrow>
          events (get_project_fields h e c) @
          (case outcome (get_status_field_id h e status c) of
             Inl err \<Rightarrow> []
           | Inr ids \<Rightarrow> [Post (SetFieldOptionMutation (project_node_id h) i (fst ids) (snd ids))]))"
  by (simp add: set_issue_status_valid [OF assms] bindE_proj get_status_field_id_events
        split: sum.splits prod.splits)

lemma set_issue_status_cache:
  assumes "truthy_int num \<noteq> truthy_str node"
  shows "cache_after (set_issue_status h e status num node c) =
     (case outcome (resolve_issue_id e num node c) of
        Inl err \<Rightarrow> c
      | Inr i \<Rightarrow> cache_after (get_project_fields h e c))"
  by (simp add: set_issue_status_valid [OF assms] bindE_proj get_status_field_id_cache
        split: sum.splits prod.splits)

lemma set_issue_status_outcome:
  assumes "truthy_int num \<noteq> truthy_str node"
  shows "outcome (set_issue_status h e status num node c) =
     (case outcome (resolve_issue_id e num node c) of
        Inl err \<Rightarrow> Inl err
      | Inr i \<Rightarrow>
          (case outcome (get_status_field_id h e status c) of
             Inl err \<Rightarrow> Inl err
           | Inr ids \<Rightarrow>
               (case outcome (set_field_option h e i (fst ids) (snd ids)
                                (cache_after (get_project_fields h e c))) of
                  Inl err \<Rightarrow> Inl err
                | Inr b \<Rightarrow> Inr ())))"
  by (simp add: set_issue_status_valid [OF assms] bindE_proj get_status_field_id_cache
        split: sum.splits prod.splits)

lemma set_issue_status_invalid:
  assumes "\<not> (truthy_int num \<noteq> truthy_str node)"
  shows "events (set_issue_status h e status num node c) = []"
    and "cache_after (set_issue_status h e status num node c) = c"
    and "\<exists>err. outcome (set_issue_status h e status num node c) = Inl err"
  using assms set_issue_status_both_falsy [of num node h e status c]
    set_issue_status_both_truthy [of num node h e status c]
  by auto

lemma set_issue_status_events_kind:
  assumes "ev \<in> set (events (set_issue_status h e status num node c))"
  shows "(\<exists>n. ev = RestGetIssue n) \<or> is_post ev"
proof (cases "truthy_int num \<noteq> truthy_str node")
  case False
  with assms show ?thesis by (simp add: set_issue_status_invalid)
next
  case True
  from assms have "ev \<in> set (events (resolve_issue_id e num node c))
      \<or> ev \<in> set (events (get_project_fields h e c)) \<or> is_post ev"
    by (auto simp: set_issue_status_events [OF True] split: sum.splits)
  then show ?thesis
    by (auto simp: get_project_fields_events dest!: resolve_issue_id_events split: if_splits)
qed

lemma set_issue_status_keeps_cache:
  assumes "cache_hit h c = Some fs"
  shows "cache_after (set_issue_status h e status num node c) = c"
proof (cases "truthy_int num \<noteq> truthy_str node")
  case False
  then show ?thesis by (simp add: set_issue_status_invalid)
next
  case True
  show ?thesis
    by (simp add: set_issue_status_cache [OF True] get_project_fields_kept [OF assms]
          split: sum.splits)
qed

lemma set_issue_status_fills_cache:
  assumes "outcome (set_issue_status h e status num node c) = Inr ()"
  shows "\<exists>fs. cache_hit h (cache_after (set_issue_status h e status num node c)) = Some fs"
proof (cases "truthy_int num \<noteq> truthy_str node")
  case False
  from set_issue_status_invalid(3) [OF False, where h = h and e = e and status = status and c = c]
    assms show ?thesis by auto
next
  case True
  from assms obtain i ids where
      "outcome (resolve_issue_id e num node c) = Inr i"
      "outcome (get_status_field_id h e status c) = Inr ids"
    by (auto simp: set_issue_status_outcome [OF True] split: sum.splits)
  then show ?thesis
    by (auto simp: set_issue_status_cache [OF True] get_status_field_id_outcome
          dest: get_project_fields_stored split: sum.splits)
qed

lemma set_issue_status_fetches:
  "length (filter is_fields_query (events (set_issue_status h e status num node c)))
     \<le> (if cache_hit h c = None then 1 else 0)"
proof (cases "truthy_int num \<noteq> truthy_str node")
  case False
  then show ?thesis by (simp add: set_issue_status_invalid)
next
  case True
  have "filter is_fields_query (events (resolve_issue_id e num node c)) = []"
    by (auto simp: filter_empty_conv dest!: resolve_issue_id_events)
  then show ?thesis
    by (simp add: set_issue_status_events [OF True] get_project_fields_events
          split: sum.splits)
qed

lemma resolve_issue_id_number:
  assumes "outcome (resolve_issue_id e (Some n) node c) = Inr i"
  shows "\<exists>g item its. get_issue e n = Inr g
           \<and> outcome (get_issue_info e (gi_node_id g) c) = Inr (item # its)
           \<and> i = Some (item_id item)"
  using assms
  by (auto simp: resolve_issue_id_def bindE_proj split: sum.splits list.splits)

lemma set_issue_status_sets:
  assumes "outcome (set_issue_status h e status (Some n) None c) = Inr ()"
  shows "\<exists>g item its fs field_id option_id.
           get_issue e n = Inr g
         \<and> outcome (get_issue_info e (gi_node_id g) c) = Inr (item # its)
         \<and> cache_hit h (cache_after (set_issue_status h e status (Some n) None c)) = Some fs
         \<and> status_ids fs status = Inr (field_id, option_id)
         \<and> Post (SetFieldOptionMutation (project_node_id h) (Some (item_id item))
                   field_id option_id)
             \<in> set (events (set_issue_status h e status (Some n) None c))"
proof -
  have valid: "truthy_int (Some n) \<noteq> truthy_str None"
  proof (rule ccontr)
    assume "\<not> ?thesis"
    from set_issue_status_invalid(3) [OF this, where h = h and e = e and status = status and c = c]
      assms show False by auto
  qed
  from assms obtain i ids where
      res: "outcome (resolve_issue_id e (Some n) None c) = Inr i"
      and ids: "outcome (get_status_field_id h e status c) = Inr ids"
    by (auto simp: set_issue_status_outcome [OF valid] split: sum.splits)
  from resolve_issue_id_number [OF res] obtain g item its where
      g: "get_issue e n = Inr g"
      and info: "outcome (get_issue_info e (gi_node_id g) c) = Inr (item # its)"
      and i: "i = Some (item_id item)"
    by blast
  from ids obtain fs where
      fs: "outcome (get_project_fields h e c) = Inr fs"
      and st: "status_ids fs status = Inr ids"
    by (auto simp: get_status_field_id_outcome split: sum.splits)
  have cache: "cache_hit h (cache_after (set_issue_status h e status (Some n) None c)) = Some fs"
    using res get_project_fields_stored [OF fs] by (simp add: set_issue_status_cache [OF valid])
  have "Post (SetFieldOptionMutation (project_node_id h) (Some (item_id item)) (fst ids) (snd ids))
          \<in> set (events (set_issue_status h e status (Some n) None c))"
    using res ids i by (simp add: set_issue_status_events [OF valid])
  with g info cache st show ?thesis
    by (cases ids) auto
qed

text \<open>The mutation of a call, from what the call looked up.\<close>

lemma set_issue_status_mutation:
  assumes ev: "ev \<in> set (events (set_issue_status h e status (Some n) None c))"
      and mut: "is_mutation ev"
  shows "\<exists>g item its fs field_id option_id.
           get_issue e n = Inr g
         \<and> outcome (get_issue_info e (gi_node_id g) c) = Inr (item # its)
         \<and> cache_hit h (cache_after (set_issue_status h e status (Some n) None c)) = Some fs
         \<and> status_ids fs status = Inr (field_id, option_id)
         \<and> ev = Post (SetFieldOptionMutation (project_node_id h) (Some (item_id item))
                       field_id option_id)"
proof -
  have valid: "truthy_int (Some n) \<noteq> truthy_str None"
  proof (rule ccontr)
    assume "\<not> ?thesis"
    from set_issue_status_invalid(1) [OF this, where h = h and e = e and status = status and c = c]
      ev show False by simp
  qed
  note evs = set_issue_status_events [OF valid, of h e status c]
  from ev mut have not_before:
      "ev \<notin> set (events (resolve_issue_id e (Some n) None c))"
      "ev \<notin> set (events (get_project_fields h e c))"
    using resolve_issue_id_no_mutation get_project_fields_no_mutation by blast+
  obtain i where res: "outcome (resolve_issue_id e (Some n) None c) = Inr i"
    using ev not_before(1) unfolding evs
    by (cases "outcome (resolve_issue_id e (Some n) None c)") auto
  obtain ids where ids: "outcome (get_status_field_id h e status c) = Inr ids"
    using ev not_before unfolding evs res
    by (cases "outcome (get_status_field_id h e status c)") auto
  have ev_eq: "ev = Post (SetFieldOptionMutation (project_node_id h) i (fst ids) (snd ids))"
    using ev not_before unfolding evs res ids by auto
  from resolve_issue_id_number [OF res] obtain g item its where
      g: "get_issue e n = Inr g"
      and info: "outcome (get_issue_info e (gi_node_id g) c) = Inr (item # its)"
      and i: "i = Some (item_id item)"
    by blast
  from ids obtain fs where
      fs: "outcome (get_project_fields h e c) = Inr fs"
      and st: "status_ids fs status = Inr ids"
    by (auto simp: get_status_field_id_outcome split: sum.splits)
  have cache: "cache_hit h (cache_after (set_issue_status h e status (Some n) None c)) = Some fs"
    using res get_project_fields_stored [OF fs] by (simp add: set_issue_status_cache [OF valid])
  from g info cache st ev_eq i show ?thesis
    by (cases ids) auto
qed

subsection \<open>The three loops as one\<close>

lemma bindE_ret [simp]: "bindE (ret x) f = f x"
  by (rule ext) (simp add: bindE_def ret_def split: prod.splits)

lemma merged_loop_eq:
  "merged_loop h e issues ghs =
     issue_loop (close_step e) ''Done'' (\<lambda>n. print (SetStatusDone n)) h e issues ghs"
  by (induction issues arbitrary: ghs) (simp_all add: close_step_def split: option.splits)

lemma closed_loop_eq:
  "closed_loop h e issues ghs =
     issue_loop (remove_step e) ''Selected for Development'' (\<lambda>n. print (SetStatusSelected n))
       h e issues ghs"
  by (induction issues arbitrary: ghs) (simp_all add: remove_step_def split: option.splits)

lemma open_loop_eq:
  "open_loop h e status assignees issues ghs =
     issue_loop (assign_step e assignees) status (\<lambda>n. ret ()) h e issues ghs"
  by (induction issues arbitrary: ghs) (simp_all add: assign_step_def split: option.splits)

subsection \<open>The steps on the issue object\<close>

lemma close_step_cache [simp]: "cache_after (close_step e n g ghs c) = c"
  by (simp add: close_step_def bindE_proj split: sum.splits)

lemma close_step_events:
  "events (close_step e n g ghs c) =
     (if gi_state g = ''open''
      then RestEditState n ''closed'' #
             (case edit_state e n ''closed'' of Inl err \<Rightarrow> [] | Inr g' \<Rightarrow> [Print (ClosedIssue n)])
      else [Print (AlreadyClosed n)])"
  by (simp add: close_step_def bindE_proj split: sum.splits)

lemma close_step_outcome:
  "outcome (close_step e n g ghs c) =
     (if gi_state g = ''open''
      then (case edit_state e n ''closed'' of Inl err \<Rightarrow> Inl err | Inr g' \<Rightarrow> Inr (ghs(n \<mapsto> g')))
      else Inr ghs)"
  by (simp add: close_step_def bindE_proj split: sum.splits)

lemma remove_step_cache [simp]: "cache_after (remove_step e n g ghs c) = c"
  by (simp add: remove_step_def bindE_proj try_proj split: sum.splits)

lemma remove_step_events:
  "events (remove_step e n g ghs c) =
     (if gi_assignees g \<noteq> []
      then RestRemoveAssignees n (gi_assignees g) #
             (case remove_from_assignees e n (gi_assignees g) of
                Inl err \<Rightarrow> [Print (CouldNotRemoveAssignees n err)]
              | Inr g' \<Rightarrow> [Print (RemovedAssignees n)])
      else [])"
  by (simp add: remove_step_def bindE_proj try_proj split: sum.splits)

lemma remove_step_outcome:
  "outcome (remove_step e n g ghs c) =
     (if gi_assignees g \<noteq> []
      then (case remove_from_assignees e n (gi_assignees g) of
              Inl err \<Rightarrow> Inr ghs
            | Inr g' \<Rightarrow> Inr (ghs(n \<mapsto> g')))
      else Inr ghs)"
  by (simp add: remove_step_def bindE_proj try_proj split: sum.splits)

lemma assign_step_cache [simp]: "cache_after (assign_step e as n g ghs c) = c"
  by (simp add: assign_step_def bindE_proj try_proj split: sum.splits)

lemma assign_step_events:
  "events (assign_step e as n g ghs c) =
     (if set (gi_assignees g) \<noteq> set as
      then RestEditAssignees n as #
             (case edit_assignees e n as of
                Inl err \<Rightarrow> [Print (CouldNotAssign n err)]
              | Inr g' \<Rightarrow> [Print (AssignedIssue n as)])
      else [])"
  by (simp add: assign_step_def bindE_proj try_proj split: sum.splits)

lemma assign_step_outcome:
  "outcome (assign_step e as n g ghs c) =
     (if set (gi_assignees g) \<noteq> set as
      then (case edit_assignees e n as of
              Inl err \<Rightarrow> Inr ghs
            | Inr g' \<Rightarrow> Inr (ghs(n \<mapsto> g')))
      else Inr ghs)"
  by (simp add: assign_step_def bindE_proj try_proj split: sum.splits)

text \<open>The events of a step: one call of the REST interface, and messages.\<close>

lemma step_no_mutation:
  "filter is_mutation (events (close_step e n g ghs c)) = []"
  "filter is_mutation (events (remove_step e n g ghs c)) = []"
  "filter is_mutation (events (assign_step e as n g ghs c)) = []"
  by (simp_all add: close_step_events remove_step_events assign_step_events split: sum.splits)


lemma step_events_kind:
  "ev \<in> set (events (close_step e n g ghs c)) \<Longrightarrow>
     ev = RestEditState n ''closed'' \<or> (\<exists>msg. ev = Print msg)"
  "ev \<in> set (events (remove_step e n g ghs c)) \<Longrightarrow>
     ev = RestRemoveAssignees n (gi_assignees g) \<or> (\<exists>msg. ev = Print msg)"
  "ev \<in> set (events (assign_step e as n g ghs c)) \<Longrightarrow>
     ev = RestEditAssignees n as \<or> (\<exists>msg. ev = Print msg)"
proof -
  show "ev = RestEditState n ''closed'' \<or> (\<exists>msg. ev = Print msg)"
    if "ev \<in> set (events (close_step e n g ghs c))"
    using that
    by (cases "edit_state e n ''closed''") (auto simp: close_step_events split: if_splits)
  show "ev = RestRemoveAssignees n (gi_assignees g) \<or> (\<exists>msg. ev = Print msg)"
    if "ev \<in> set (events (remove_step e n g ghs c))"
    using that
    by (cases "remove_from_assignees e n (gi_assignees g)")
       (auto simp: remove_step_events split: if_splits)
  show "ev = RestEditAssignees n as \<or> (\<exists>msg. ev = Print msg)"
    if "ev \<in> set (events (assign_step e as n g ghs c))"
    using that
    by (cases "edit_assignees e n as") (auto simp: assign_step_events split: if_splits)
qed

subsection \<open>One linked issue after the other\<close>

lemma issue_loop_keeps_cache:
  assumes step: "\<And>n g ghs c. cache_after (step n g ghs c) = c"
      and after: "\<And>n c. cache_after (after n c) = c"
      and hit: "cache_hit h c = Some fs"
  shows "cache_after (issue_loop step status after h e issues ghs c) = c"
proof (induction issues arbitrary: ghs)
  case Nil
  show ?case by simp
next
  case (Cons x xs)
  show ?case
    by (simp add: bindE_proj step after set_issue_status_keeps_cache [OF hit] Cons.IH
          split: option.splits sum.splits)
qed

text \<open>A run of the loop that returns has gone through every part of its first round.\<close>

lemma issue_loop_Cons_returns:
  assumes step: "\<And>n g ghs c. cache_after (step n g ghs c) = c"
      and after: "\<And>n c. cache_after (after n c) = c"
      and ok: "outcome (issue_loop step status after h e (x # xs) ghs c) = Inr ()"
  obtains g ghs1 where
      "ghs (li_number x) = Some g"
      "outcome (step (li_number x) g ghs c) = Inr ghs1"
      "outcome (set_issue_status h e status (Some (li_number x)) None c) = Inr ()"
      "outcome (issue_loop step status after h e xs ghs1
                  (cache_after (set_issue_status h e status (Some (li_number x)) None c))) = Inr ()"
      "events (issue_loop step status after h e (x # xs) ghs c) =
         events (step (li_number x) g ghs c) @
         events (set_issue_status h e status (Some (li_number x)) None c) @
         events (after (li_number x)
                   (cache_after (set_issue_status h e status (Some (li_number x)) None c))) @
         events (issue_loop step status after h e xs ghs1
                   (cache_after (set_issue_status h e status (Some (li_number x)) None c)))"
      "cache_after (issue_loop step status after h e (x # xs) ghs c) =
         cache_after (issue_loop step status after h e xs ghs1
                   (cache_after (set_issue_status h e status (Some (li_number x)) None c)))"
proof -
  let ?n = "li_number x"
  let ?c2 = "cache_after (set_issue_status h e status (Some ?n) None c)"
  from ok obtain g where g: "ghs ?n = Some g"
    by (cases "ghs ?n") simp_all
  from ok g obtain ghs1 where s1: "outcome (step ?n g ghs c) = Inr ghs1"
    by (cases "outcome (step ?n g ghs c)") (simp_all add: outcome_bindE)
  from ok g s1 have s2: "outcome (set_issue_status h e status (Some ?n) None c) = Inr ()"
    by (cases "outcome (set_issue_status h e status (Some ?n) None c)")
       (simp_all add: outcome_bindE step)
  from ok g s1 s2 have s3: "outcome (after ?n ?c2) = Inr ()"
    by (cases "outcome (after ?n ?c2)") (simp_all add: outcome_bindE step)
  from ok g s1 s2 s3
  have s4: "outcome (issue_loop step status after h e xs ghs1 ?c2) = Inr ()"
    by (simp add: outcome_bindE step after)
  have ev: "events (issue_loop step status after h e (x # xs) ghs c) =
         events (step ?n g ghs c) @ events (set_issue_status h e status (Some ?n) None c) @
         events (after ?n ?c2) @ events (issue_loop step status after h e xs ghs1 ?c2)"
    using g s1 s2 s3 by (simp add: bindE_proj step after)
  have ca: "cache_after (issue_loop step status after h e (x # xs) ghs c) =
         cache_after (issue_loop step status after h e xs ghs1 ?c2)"
    using g s1 s2 s3 by (simp add: bindE_proj step after)
  from g s1 s2 s4 ev ca show thesis by (rule that)
qed

lemma issue_loop_sets_status:
  assumes step: "\<And>n g ghs c. cache_after (step n g ghs c) = c"
      and after: "\<And>n c. cache_after (after n c) = c"
      and ok: "outcome (issue_loop step status after h e issues ghs c) = Inr ()"
      and mem: "issue \<in> set issues"
  shows "\<exists>g item its fs field_id option_id.
           get_issue e (li_number issue) = Inr g
         \<and> outcome (get_issue_info e (gi_node_id g) c0) = Inr (item # its)
         \<and> cache_hit h (cache_after (issue_loop step status after h e issues ghs c)) = Some fs
         \<and> status_ids fs status = Inr (field_id, option_id)
         \<and> Post (SetFieldOptionMutation (project_node_id h) (Some (item_id item))
                   field_id option_id)
             \<in> set (events (issue_loop step status after h e issues ghs c))"
  using ok mem
proof (induction issues arbitrary: ghs c)
  case Nil
  then show ?case by simp
next
  case (Cons x xs)
  let ?sis = "set_issue_status h e status (Some (li_number x)) None c"
  from Cons.prems(1) obtain g0 ghs1 where
      sis: "outcome ?sis = Inr ()"
      and rest: "outcome (issue_loop step status after h e xs ghs1 (cache_after ?sis)) = Inr ()"
      and ev: "events (issue_loop step status after h e (x # xs) ghs c) =
         events (step (li_number x) g0 ghs c) @ events ?sis @
         events (after (li_number x) (cache_after ?sis)) @
         events (issue_loop step status after h e xs ghs1 (cache_after ?sis))"
      and ca: "cache_after (issue_loop step status after h e (x # xs) ghs c) =
         cache_after (issue_loop step status after h e xs ghs1 (cache_after ?sis))"
    by (rule issue_loop_Cons_returns [OF step after])
  show ?case
  proof (cases "issue = x")
    case True
    from set_issue_status_sets [OF sis] obtain g item its fs field_id option_id where
        g: "get_issue e (li_number x) = Inr g"
        and info: "outcome (get_issue_info e (gi_node_id g) c) = Inr (item # its)"
        and fs: "cache_hit h (cache_after ?sis) = Some fs"
        and ids: "status_ids fs status = Inr (field_id, option_id)"
        and post: "Post (SetFieldOptionMutation (project_node_id h) (Some (item_id item))
                     field_id option_id) \<in> set (events ?sis)"
      by blast
    have kept: "cache_after (issue_loop step status after h e xs ghs1 (cache_after ?sis))
                  = cache_after ?sis"
      by (rule issue_loop_keeps_cache [OF step after fs])
    from info have info0: "outcome (get_issue_info e (gi_node_id g) c0) = Inr (item # its)"
      by (simp add: get_issue_info_indep [of e "gi_node_id g" c0 c])
    from post have "Post (SetFieldOptionMutation (project_node_id h) (Some (item_id item))
                     field_id option_id)
          \<in> set (events (issue_loop step status after h e (x # xs) ghs c))"
      unfolding ev by simp
    with g info0 fs ids kept ca True show ?thesis by metis
  next
    case False
    with Cons.prems(2) have "issue \<in> set xs" by simp
    from Cons.IH [OF rest this] obtain g item its fs field_id option_id where
        "get_issue e (li_number issue) = Inr g"
        "outcome (get_issue_info e (gi_node_id g) c0) = Inr (item # its)"
        "cache_hit h (cache_after (issue_loop step status after h e xs ghs1 (cache_after ?sis)))
           = Some fs"
        "status_ids fs status = Inr (field_id, option_id)"
        "Post (SetFieldOptionMutation (project_node_id h) (Some (item_id item))
                 field_id option_id)
           \<in> set (events (issue_loop step status after h e xs ghs1 (cache_after ?sis)))"
      by blast
    then show ?thesis
      unfolding ev ca by (intro exI conjI) (assumption | simp)+
  qed
qed

text \<open>
  In a run that returns, the call a step makes for an issue whose object asks for it
  (\<open>ev\<close> is made whatever the other objects are) is among the events.
\<close>

lemma issue_loop_step_event:
  assumes step: "\<And>n g ghs c. cache_after (step n g ghs c) = c"
      and after: "\<And>n c. cache_after (after n c) = c"
      and fire: "\<And>ghs c. ev \<in> set (events (step n g ghs c))"
      and local: "\<And>m g' ghs c ghs1.
                    outcome (step m g' ghs c) = Inr ghs1 \<Longrightarrow> m \<noteq> n \<Longrightarrow> ghs1 n = ghs n"
      and ok: "outcome (issue_loop step status after h e issues ghs c) = Inr ()"
      and mem: "n \<in> li_number ` set issues"
      and obj: "ghs n = Some g"
  shows "ev \<in> set (events (issue_loop step status after h e issues ghs c))"
  using ok mem obj
proof (induction issues arbitrary: ghs c)
  case Nil
  then show ?case by simp
next
  case (Cons x xs)
  let ?sis = "set_issue_status h e status (Some (li_number x)) None c"
  from Cons.prems(1) obtain g0 ghs1 where
      g0: "ghs (li_number x) = Some g0"
      and s1: "outcome (step (li_number x) g0 ghs c) = Inr ghs1"
      and rest: "outcome (issue_loop step status after h e xs ghs1 (cache_after ?sis)) = Inr ()"
      and ev: "events (issue_loop step status after h e (x # xs) ghs c) =
         events (step (li_number x) g0 ghs c) @ events ?sis @
         events (after (li_number x) (cache_after ?sis)) @
         events (issue_loop step status after h e xs ghs1 (cache_after ?sis))"
    by (rule issue_loop_Cons_returns [OF step after])
  show ?case
  proof (cases "li_number x = n")
    case True
    with g0 Cons.prems(3) have "g0 = g" by simp
    with True fire [of ghs c] show ?thesis unfolding ev by simp
  next
    case False
    with Cons.prems(2) have "n \<in> li_number ` set xs" by auto
    moreover from local [OF s1 False] Cons.prems(3) have "ghs1 n = Some g" by simp
    ultimately have "ev \<in> set (events (issue_loop step status after h e xs ghs1 (cache_after ?sis)))"
      by (rule Cons.IH [OF rest])
    then show ?thesis unfolding ev by simp
  qed
qed

text \<open>
  The cache after the loop, once a status-set in its first round has found or stored
  the field table.
\<close>

lemma issue_loop_Cons_cache:
  assumes step: "\<And>n g ghs c. cache_after (step n g ghs c) = c"
      and after: "\<And>n c. cache_after (after n c) = c"
      and obj: "ghs (li_number x) = Some g"
      and s1: "outcome (step (li_number x) g ghs c) = Inr ghs1"
      and hit: "cache_hit h (cache_after (set_issue_status h e status (Some (li_number x)) None c))
                  = Some fs"
  shows "cache_after (issue_loop step status after h e (x # xs) ghs c)
           = cache_after (set_issue_status h e status (Some (li_number x)) None c)"
  using obj s1
  by (simp add: bindE_proj step after issue_loop_keeps_cache [OF step after hit]
        split: sum.splits)

lemma issue_loop_mutations:
  assumes step: "\<And>n g ghs c. cache_after (step n g ghs c) = c"
      and after: "\<And>n c. cache_after (after n c) = c"
      and step_quiet: "\<And>n g ghs c. filter is_mutation (events (step n g ghs c)) = []"
      and after_quiet: "\<And>n c. filter is_mutation (events (after n c)) = []"
      and ev: "ev \<in> set (events (issue_loop step status after h e issues ghs c))"
      and mut: "is_mutation ev"
  shows "\<exists>issue \<in> set issues. \<exists>g item its fs field_id option_id.
           get_issue e (li_number issue) = Inr g
         \<and> outcome (get_issue_info e (gi_node_id g) c0) = Inr (item # its)
         \<and> cache_hit h (cache_after (issue_loop step status after h e issues ghs c)) = Some fs
         \<and> status_ids fs status = Inr (field_id, option_id)
         \<and> ev = Post (SetFieldOptionMutation (project_node_id h) (Some (item_id item))
                       field_id option_id)"
  using ev
proof (induction issues arbitrary: ghs c)
  case Nil
  then show ?case by simp
next
  case (Cons x xs)
  let ?m = "li_number x"
  let ?sis = "set_issue_status h e status (Some ?m) None c"
  from mut have not_step: "ev \<notin> set (events (step n g ghs c))" for n g ghs c
    using step_quiet [of n g ghs c] by (auto simp: filter_empty_conv)
  from mut have not_after: "ev \<notin> set (events (after n c))" for n c
    using after_quiet [of n c] by (auto simp: filter_empty_conv)
  from Cons.prems obtain g0 where g0: "ghs ?m = Some g0"
    by (cases "ghs ?m") simp_all
  from Cons.prems g0 not_step obtain ghs1 where s1: "outcome (step ?m g0 ghs c) = Inr ghs1"
    by (cases "outcome (step ?m g0 ghs c)") (simp_all add: bindE_proj)
  from Cons.prems g0 s1 not_step not_after consider
      (sis) "ev \<in> set (events ?sis)"
    | (rest) "outcome ?sis = Inr ()" "outcome (after ?m (cache_after ?sis)) = Inr ()"
        "ev \<in> set (events (issue_loop step status after h e xs ghs1 (cache_after ?sis)))"
    by (auto simp: bindE_proj step after split: sum.splits)
  then show ?case
  proof cases
    case sis
    from set_issue_status_mutation [OF sis mut] obtain g item its fs field_id option_id where
        g: "get_issue e ?m = Inr g"
        and info: "outcome (get_issue_info e (gi_node_id g) c) = Inr (item # its)"
        and fs: "cache_hit h (cache_after ?sis) = Some fs"
        and ids: "status_ids fs status = Inr (field_id, option_id)"
        and ev_eq: "ev = Post (SetFieldOptionMutation (project_node_id h) (Some (item_id item))
                          field_id option_id)"
      by blast
    from info have info0: "outcome (get_issue_info e (gi_node_id g) c0) = Inr (item # its)"
      by (simp add: get_issue_info_indep [of e "gi_node_id g" c0 c])
    have "cache_after (issue_loop step status after h e (x # xs) ghs c) = cache_after ?sis"
      by (rule issue_loop_Cons_cache [where step = step and after = after, OF step after g0 s1 fs])
    with g info0 fs ids ev_eq show ?thesis
      by (intro bexI [of _ x]) auto
  next
    case rest
    have ca: "cache_after (issue_loop step status after h e (x # xs) ghs c)
                = cache_after (issue_loop step status after h e xs ghs1 (cache_after ?sis))"
      using g0 s1 rest(1,2) by (simp add: bindE_proj step after)
    from Cons.IH [OF rest(3)] show ?thesis
      unfolding ca by auto
  qed
qed


text \<open>Where an event of the loop comes from.\<close>

lemma issue_loop_events_cases:
  assumes "ev \<in> set (events (issue_loop step status after h e issues ghs c))"
  shows "(\<exists>n g ghs' c'. ev \<in> set (events (step n g ghs' c')))
       \<or> (\<exists>n c'. ev \<in> set (events (set_issue_status h e status (Some n) None c')))
       \<or> (\<exists>n c'. ev \<in> set (events (after n c')))"
  using assms
proof (induction issues arbitrary: ghs c)
  case Nil
  then show ?case by simp
next
  case (Cons x xs)
  let ?m = "li_number x"
  let ?sis = "set_issue_status h e status (Some ?m) None c'" 
  from Cons.prems obtain g0 where g0: "ghs ?m = Some g0"
    by (cases "ghs ?m") simp_all
  from Cons.prems g0 consider
      (step) "ev \<in> set (events (step ?m g0 ghs c))"
    | (sis) c' where "ev \<in> set (events (set_issue_status h e status (Some ?m) None c'))"
    | (aft) c' where "ev \<in> set (events (after ?m c'))"
    | (rest) ghs1 c' where
        "ev \<in> set (events (issue_loop step status after h e xs ghs1 c'))"
    by (auto simp: bindE_proj split: sum.splits)
  then show ?case
  proof cases
    case rest
    from Cons.IH [OF this] show ?thesis .
  qed blast+
qed

subsection \<open>The prelude of \<open>sync_issue_status_with_pr\<close>\<close>

lemma linked_issues_cache [simp]:
  "cache_after (get_pull_request_linked_issues h e k c) = c"
  by (simp add: get_pull_request_linked_issues_def bindE_proj split: sum.splits body.splits)

lemma linked_issues_events [simp]:
  "events (get_pull_request_linked_issues h e k c) =
     [Post (LinkedIssuesQuery k (organization (gh_config h)) (repository (gh_config h)))]"
  by (simp add: get_pull_request_linked_issues_def bindE_proj split: sum.splits body.splits)

lemma fetch_issues_cache [simp]: "cache_after (fetch_issues e issues m c) = c"
  by (induction issues arbitrary: m) (simp_all add: bindE_proj split: sum.splits)

lemma fetch_issues_events:
  "ev \<in> set (events (fetch_issues e issues m c)) \<Longrightarrow> \<exists>n. ev = RestGetIssue n"
  by (induction issues arbitrary: m) (auto simp: bindE_proj split: sum.splits)

lemma fetch_issues_result:
  "outcome (fetch_issues e issues m c) = Inr ghs \<Longrightarrow>
   (\<forall>n \<in> li_number ` set issues. \<exists>g. get_issue e n = Inr g \<and> ghs n = Some g)
   \<and> (\<forall>n. n \<notin> li_number ` set issues \<longrightarrow> ghs n = m n)"
proof (induction issues arbitrary: m)
  case Nil
  then show ?case by simp
next
  case (Cons x xs)
  from Cons.prems obtain g where
      g: "get_issue e (li_number x) = Inr g"
      and rest: "outcome (fetch_issues e xs (m(li_number x \<mapsto> g)) c) = Inr ghs"
    by (auto simp: bindE_proj split: sum.splits)
  from Cons.IH [OF rest]
  have in_xs: "\<forall>n \<in> li_number ` set xs. \<exists>g'. get_issue e n = Inr g' \<and> ghs n = Some g'"
    and out_xs: "\<forall>n. n \<notin> li_number ` set xs \<longrightarrow> ghs n = (m(li_number x \<mapsto> g)) n"
    by blast+
  have "\<exists>g'. get_issue e (li_number x) = Inr g' \<and> ghs (li_number x) = Some g'"
  proof (cases "li_number x \<in> li_number ` set xs")
    case True
    with in_xs show ?thesis by blast
  next
    case False
    with out_xs g show ?thesis by simp
  qed
  with in_xs out_xs show ?case by auto
qed

lemma print_if [simp]:
  "outcome ((if b then print x else print y) c) = Inr ()"
  "cache_after ((if b then print x else print y) c) = c"
  "events ((if b then print x else print y) c) = [Print (if b then x else y)]"
  by simp_all

lemma sync_unfold:
  assumes pull: "get_pull e k = Inr pr"
      and linked: "outcome (get_pull_request_linked_issues h e k c) = Inr linked"
      and fetched: "outcome (fetch_issues e linked Map.empty c) = Inr ghs"
  shows "outcome (sync_issue_status_with_pr h e k c) = outcome (sync_loops h e pr linked ghs c)"
    and "cache_after (sync_issue_status_with_pr h e k c)
           = cache_after (sync_loops h e pr linked ghs c)"
    and "events (sync_issue_status_with_pr h e k c) =
           [RestGetPull k,
            Post (LinkedIssuesQuery k (organization (gh_config h)) (repository (gh_config h))),
            Print (LinkedIssues linked),
            Print (if pr_assignees pr = [] then NoAssigneesUsingAuthor (target_assignees pr)
                   else PRAssignees (target_assignees pr))] @
           events (fetch_issues e linked Map.empty c) @
           events (sync_loops h e pr linked ghs c)"
  using assms
  by (simp_all add: sync_issue_status_with_pr_def sync_loops_def bindE_proj)

lemma sync_returns:
  assumes "outcome (sync_issue_status_with_pr h e k c) = Inr ()"
  obtains pr linked ghs where
      "get_pull e k = Inr pr"
      "outcome (get_pull_request_linked_issues h e k c) = Inr linked"
      "outcome (fetch_issues e linked Map.empty c) = Inr ghs"
proof -
  from assms obtain pr where pull: "get_pull e k = Inr pr"
    by (cases "get_pull e k") (simp_all add: sync_issue_status_with_pr_def outcome_bindE)
  from assms pull obtain linked where
      linked: "outcome (get_pull_request_linked_issues h e k c) = Inr linked"
    by (cases "outcome (get_pull_request_linked_issues h e k c)")
       (simp_all add: sync_issue_status_with_pr_def outcome_bindE)
  from assms pull linked obtain ghs where
      "outcome (fetch_issues e linked Map.empty c) = Inr ghs"
    by (cases "outcome (fetch_issues e linked Map.empty c)")
       (simp_all add: sync_issue_status_with_pr_def bindE_proj)
  with pull linked show thesis by (rule that)
qed

text \<open>The branch, as the loop over the linked issues with the step of the branch.\<close>

lemma sync_loops_merged:
  assumes "pr_merged pr"
  shows "outcome (sync_loops h e pr linked ghs c) =
           outcome (issue_loop (close_step e) ''Done'' (\<lambda>n. print (SetStatusDone n))
                      h e linked ghs c)"
    and "cache_after (sync_loops h e pr linked ghs c) =
           cache_after (issue_loop (close_step e) ''Done'' (\<lambda>n. print (SetStatusDone n))
                      h e linked ghs c)"
    and "events (sync_loops h e pr linked ghs c) =
           Print PRIsMerged #
           events (issue_loop (close_step e) ''Done'' (\<lambda>n. print (SetStatusDone n))
                      h e linked ghs c)"
  using assms by (simp_all add: sync_loops_def bindE_proj merged_loop_eq)

lemma sync_loops_closed:
  assumes "\<not> pr_merged pr" and "pr_state pr = ''closed''"
  shows "outcome (sync_loops h e pr linked ghs c) =
           outcome (issue_loop (remove_step e) ''Selected for Development''
                      (\<lambda>n. print (SetStatusSelected n)) h e linked ghs c)"
    and "cache_after (sync_loops h e pr linked ghs c) =
           cache_after (issue_loop (remove_step e) ''Selected for Development''
                      (\<lambda>n. print (SetStatusSelected n)) h e linked ghs c)"
    and "events (sync_loops h e pr linked ghs c) =
           Print PRClosedWithoutMerging #
           events (issue_loop (remove_step e) ''Selected for Development''
                      (\<lambda>n. print (SetStatusSelected n)) h e linked ghs c)"
  using assms by (simp_all add: sync_loops_def bindE_proj closed_loop_eq)

lemma sync_loops_open:
  assumes "\<not> pr_merged pr" and "pr_state pr \<noteq> ''closed''"
  shows "outcome (sync_loops h e pr linked ghs c) =
           outcome (issue_loop (assign_step e (target_assignees pr))
                      (if pr_draft pr then ''In Development'' else ''Ready For Review'')
                      (\<lambda>n. ret ()) h e linked ghs c)"
    and "cache_after (sync_loops h e pr linked ghs c) =
           cache_after (issue_loop (assign_step e (target_assignees pr))
                      (if pr_draft pr then ''In Development'' else ''Ready For Review'')
                      (\<lambda>n. ret ()) h e linked ghs c)"
    and "events (sync_loops h e pr linked ghs c) =
           Print (TargetStatus (if pr_draft pr then ''In Development'' else ''Ready For Review'')) #
           events (issue_loop (assign_step e (target_assignees pr))
                      (if pr_draft pr then ''In Development'' else ''Ready For Review'')
                      (\<lambda>n. ret ()) h e linked ghs c)"
  using assms by (simp_all add: sync_loops_def bindE_proj open_loop_eq)

text \<open>What the run does before the branch on the pull request.\<close>

lemma sync_events_cases:
  assumes "ev \<in> set (events (sync_issue_status_with_pr h e k c))"
  shows "ev = RestGetPull k
       \<or> ev = Post (LinkedIssuesQuery k (organization (gh_config h)) (repository (gh_config h)))
       \<or> (\<exists>msg. ev = Print msg) \<or> (\<exists>n. ev = RestGetIssue n)
       \<or> (\<exists>pr linked ghs. get_pull e k = Inr pr
             \<and> outcome (get_pull_request_linked_issues h e k c) = Inr linked
             \<and> outcome (fetch_issues e linked Map.empty c) = Inr ghs
             \<and> ev \<in> set (events (sync_loops h e pr linked ghs c)))"
proof (cases "get_pull e k")
  case (Inl err)
  with assms show ?thesis
    by (auto simp: sync_issue_status_with_pr_def bindE_proj)
next
  case pull: (Inr pr)
  show ?thesis
  proof (cases "outcome (get_pull_request_linked_issues h e k c)")
    case (Inl err)
    with assms pull show ?thesis
      by (auto simp: sync_issue_status_with_pr_def bindE_proj)
  next
    case linked: (Inr linked)
    show ?thesis
    proof (cases "outcome (fetch_issues e linked Map.empty c)")
      case (Inl err)
      with assms pull linked show ?thesis
        by (auto simp: sync_issue_status_with_pr_def bindE_proj dest: fetch_issues_events)
    next
      case fetched: (Inr ghs)
      from assms show ?thesis
        unfolding sync_unfold(3) [OF pull linked fetched]
        using pull linked fetched by (auto dest: fetch_issues_events)
    qed
  qed
qed

subsection \<open>Every linked issue gets the status of the branch\<close>

lemma after_frames [simp]:
  "cache_after ((\<lambda>n. print (msg n)) m c) = c"
  "cache_after ((\<lambda>n. ret ()) m c) = c"
  by simp_all

lemma sync_sets_status:
  assumes ok: "outcome (sync_issue_status_with_pr h e k c) = Inr ()"
      and pull: "get_pull e k = Inr pr"
      and linked: "outcome (get_pull_request_linked_issues h e k c) = Inr linked"
      and mem: "issue \<in> set linked"
  shows "\<exists>g item its fs field_id option_id.
           get_issue e (li_number issue) = Inr g
         \<and> outcome (get_issue_info e (gi_node_id g) c) = Inr (item # its)
         \<and> cache_hit h (cache_after (sync_issue_status_with_pr h e k c)) = Some fs
         \<and> status_ids fs (target_status pr) = Inr (field_id, option_id)
         \<and> Post (SetFieldOptionMutation (project_node_id h) (Some (item_id item))
                   field_id option_id)
             \<in> set (events (sync_issue_status_with_pr h e k c))"
proof -
  from ok obtain pr' linked' ghs where
      "get_pull e k = Inr pr'"
      "outcome (get_pull_request_linked_issues h e k c) = Inr linked'"
      and fetched': "outcome (fetch_issues e linked' Map.empty c) = Inr ghs"
    by (rule sync_returns)
  with pull linked have fetched: "outcome (fetch_issues e linked Map.empty c) = Inr ghs"
    by simp
  note u = sync_unfold [OF pull linked fetched]
  have goal: "\<exists>g item its fs field_id option_id.
           get_issue e (li_number issue) = Inr g
         \<and> outcome (get_issue_info e (gi_node_id g) c) = Inr (item # its)
         \<and> cache_hit h (cache_after (issue_loop step (target_status pr) after h e linked ghs c))
             = Some fs
         \<and> status_ids fs (target_status pr) = Inr (field_id, option_id)
         \<and> Post (SetFieldOptionMutation (project_node_id h) (Some (item_id item))
                   field_id option_id)
             \<in> set (events (issue_loop step (target_status pr) after h e linked ghs c))"
    if step: "\<And>n g ghs c. cache_after (step n g ghs c) = c"
      and after: "\<And>n c. cache_after (after n c) = c"
      and run: "outcome (issue_loop step (target_status pr) after h e linked ghs c) = Inr ()"
    for step after
    by (rule issue_loop_sets_status [OF step after run mem])
  consider (merged) "pr_merged pr"
    | (closed) "\<not> pr_merged pr" "pr_state pr = ''closed''"
    | (opened) "\<not> pr_merged pr" "pr_state pr \<noteq> ''closed''"
    by blast
  then show ?thesis
  proof cases
    case merged
    note l = sync_loops_merged [OF merged, of h e linked ghs c]
    have t: "target_status pr = ''Done''" using merged by (simp add: target_status_def)
    from ok have "outcome (issue_loop (close_step e) (target_status pr)
                    (\<lambda>n. print (SetStatusDone n)) h e linked ghs c) = Inr ()"
      by (simp add: u(1) l(1) t)
    from goal [OF _ _ this] show ?thesis
      unfolding u(2,3) l(2,3) t by auto
  next
    case closed
    note l = sync_loops_closed [OF closed, of h e linked ghs c]
    have t: "target_status pr = ''Selected for Development''"
      using closed by (simp add: target_status_def)
    from ok have "outcome (issue_loop (remove_step e) (target_status pr)
                    (\<lambda>n. print (SetStatusSelected n)) h e linked ghs c) = Inr ()"
      by (simp add: u(1) l(1) t)
    from goal [OF _ _ this] show ?thesis
      unfolding u(2,3) l(2,3) t by auto
  next
    case opened
    note l = sync_loops_open [OF opened, of h e linked ghs c]
    have t: "target_status pr = (if pr_draft pr then ''In Development'' else ''Ready For Review'')"
      using opened by (simp add: target_status_def)
    from ok have "outcome (issue_loop (assign_step e (target_assignees pr)) (target_status pr)
                    (\<lambda>n. ret ()) h e linked ghs c) = Inr ()"
      by (simp add: u(1) l(1) t)
    from goal [OF _ _ this] show ?thesis
      unfolding u(2,3) l(2,3) t by auto
  qed
qed

text \<open>
  In a run that returns, the call that a step makes for the object first fetched for a
  linked issue is among the events.
\<close>

lemma sync_step_event:
  assumes ok: "outcome (sync_issue_status_with_pr h e k c) = Inr ()"
      and pull: "get_pull e k = Inr pr"
      and linked: "outcome (get_pull_request_linked_issues h e k c) = Inr linked"
      and mem: "issue \<in> set linked"
      and g: "get_issue e (li_number issue) = Inr g"
      and loops: "\<And>ghs. outcome (sync_loops h e pr linked ghs c)
                    = outcome (issue_loop step status after h e linked ghs c)
                  \<and> set (events (issue_loop step status after h e linked ghs c))
                      \<subseteq> set (events (sync_loops h e pr linked ghs c))"
      and step: "\<And>n g ghs c. cache_after (step n g ghs c) = c"
      and after: "\<And>n c. cache_after (after n c) = c"
      and fire: "\<And>ghs c. ev \<in> set (events (step (li_number issue) g ghs c))"
      and local: "\<And>m g' ghs c ghs1.
                    outcome (step m g' ghs c) = Inr ghs1 \<Longrightarrow> m \<noteq> li_number issue \<Longrightarrow>
                    ghs1 (li_number issue) = ghs (li_number issue)"
  shows "ev \<in> set (events (sync_issue_status_with_pr h e k c))"
proof -
  from ok obtain pr' linked' ghs where
      "get_pull e k = Inr pr'"
      "outcome (get_pull_request_linked_issues h e k c) = Inr linked'"
      and fetched': "outcome (fetch_issues e linked' Map.empty c) = Inr ghs"
    by (rule sync_returns)
  with pull linked have fetched: "outcome (fetch_issues e linked Map.empty c) = Inr ghs"
    by simp
  note u = sync_unfold [OF pull linked fetched]
  from fetch_issues_result [OF fetched] mem g have obj: "ghs (li_number issue) = Some g"
    by force
  from ok have run: "outcome (issue_loop step status after h e linked ghs c) = Inr ()"
    using loops [of ghs] by (simp add: u(1))
  have "ev \<in> set (events (issue_loop step status after h e linked ghs c))"
  proof (rule issue_loop_step_event
           [where step = step and after = after and n = "li_number issue" and g = g])
    show "li_number issue \<in> li_number ` set linked" using mem by simp
  qed (rule step after fire run obj | erule (1) local)+
  with loops [of ghs] show ?thesis
    unfolding u(3) by auto
qed

text \<open>
  Every mutation that a run posts, whether the run returns or not, writes the option of
  the branch's status to the project item of a linked issue.
\<close>

lemma sync_mutations:
  assumes pull: "get_pull e k = Inr pr"
      and linked: "outcome (get_pull_request_linked_issues h e k c) = Inr linked"
      and ev: "ev \<in> set (events (sync_issue_status_with_pr h e k c))"
      and mut: "is_mutation ev"
  shows "\<exists>issue \<in> set linked. \<exists>g item its fs field_id option_id.
           get_issue e (li_number issue) = Inr g
         \<and> outcome (get_issue_info e (gi_node_id g) c) = Inr (item # its)
         \<and> cache_hit h (cache_after (sync_issue_status_with_pr h e k c)) = Some fs
         \<and> status_ids fs (target_status pr) = Inr (field_id, option_id)
         \<and> ev = Post (SetFieldOptionMutation (project_node_id h) (Some (item_id item))
                       field_id option_id)"
proof -
  from sync_events_cases [OF ev] mut pull linked obtain ghs where
      fetched: "outcome (fetch_issues e linked Map.empty c) = Inr ghs"
      and in_loops: "ev \<in> set (events (sync_loops h e pr linked ghs c))"
    by auto
  note u = sync_unfold [OF pull linked fetched]
  have goal: "\<exists>issue \<in> set linked. \<exists>g item its fs field_id option_id.
           get_issue e (li_number issue) = Inr g
         \<and> outcome (get_issue_info e (gi_node_id g) c) = Inr (item # its)
         \<and> cache_hit h (cache_after (issue_loop step (target_status pr) after h e linked ghs c))
             = Some fs
         \<and> status_ids fs (target_status pr) = Inr (field_id, option_id)
         \<and> ev = Post (SetFieldOptionMutation (project_node_id h) (Some (item_id item))
                       field_id option_id)"
    if step: "\<And>n g ghs c. cache_after (step n g ghs c) = c"
      and after: "\<And>n c. cache_after (after n c) = c"
      and step_quiet: "\<And>n g ghs c. filter is_mutation (events (step n g ghs c)) = []"
      and after_quiet: "\<And>n c. filter is_mutation (events (after n c)) = []"
      and run: "ev \<in> set (events (issue_loop step (target_status pr) after h e linked ghs c))"
    for step after
    by (rule issue_loop_mutations [where step = step and after = after,
          OF step after step_quiet after_quiet run mut])
  consider (merged) "pr_merged pr"
    | (closed) "\<not> pr_merged pr" "pr_state pr = ''closed''"
    | (opened) "\<not> pr_merged pr" "pr_state pr \<noteq> ''closed''"
    by blast
  then show ?thesis
  proof cases
    case merged
    note l = sync_loops_merged [OF merged, of h e linked ghs c]
    have t: "target_status pr = ''Done''" using merged by (simp add: target_status_def)
    from in_loops mut have "ev \<in> set (events (issue_loop (close_step e) (target_status pr)
                    (\<lambda>n. print (SetStatusDone n)) h e linked ghs c))"
      by (auto simp: l(3) t)
    from goal [OF _ _ _ _ this] show ?thesis
      unfolding u(2) l(2) t by (simp add: step_no_mutation)
  next
    case closed
    note l = sync_loops_closed [OF closed, of h e linked ghs c]
    have t: "target_status pr = ''Selected for Development''"
      using closed by (simp add: target_status_def)
    from in_loops mut have "ev \<in> set (events (issue_loop (remove_step e) (target_status pr)
                    (\<lambda>n. print (SetStatusSelected n)) h e linked ghs c))"
      by (auto simp: l(3) t)
    from goal [OF _ _ _ _ this] show ?thesis
      unfolding u(2) l(2) t by (simp add: step_no_mutation)
  next
    case opened
    note l = sync_loops_open [OF opened, of h e linked ghs c]
    have t: "target_status pr = (if pr_draft pr then ''In Development'' else ''Ready For Review'')"
      using opened by (simp add: target_status_def)
    from in_loops mut have "ev \<in> set (events (issue_loop (assign_step e (target_assignees pr))
                    (target_status pr) (\<lambda>n. ret ()) h e linked ghs c))"
      by (auto simp: l(3) t)
    from goal [OF _ _ _ _ this] show ?thesis
      unfolding u(2) l(2) t by (simp add: step_no_mutation)
  qed
qed

text \<open>
  A call of the REST interface that writes is made by the step of the branch.
\<close>

lemma sync_step_events:
  assumes pull: "get_pull e k = Inr pr"
      and ev: "ev \<in> set (events (sync_issue_status_with_pr h e k c))"
      and kind: "ev = RestEditState n st \<or> ev = RestRemoveAssignees n as
                   \<or> ev = RestEditAssignees n as"
  shows "\<exists>m g ghs c'.
           ev \<in> set (events
             ((if pr_merged pr then close_step e
               else if pr_state pr = ''closed'' then remove_step e
               else assign_step e (target_assignees pr)) m g ghs c'))"
proof -
  from sync_events_cases [OF ev] kind pull obtain linked ghs where
      in_loops: "ev \<in> set (events (sync_loops h e pr linked ghs c))"
    by auto
  have goal: "\<exists>m g ghs c'. ev \<in> set (events (step m g ghs c'))"
    if run: "ev \<in> set (events (issue_loop step status after h e linked ghs c))"
      and after: "\<And>n c ev. ev \<in> set (events (after n c)) \<Longrightarrow> \<exists>msg. ev = Print msg"
    for step status after
    using issue_loop_events_cases [OF run] kind
    by (auto dest: after set_issue_status_events_kind)
  consider (merged) "pr_merged pr"
    | (closed) "\<not> pr_merged pr" "pr_state pr = ''closed''"
    | (opened) "\<not> pr_merged pr" "pr_state pr \<noteq> ''closed''"
    by blast
  then show ?thesis
  proof cases
    case merged
    from in_loops kind have "ev \<in> set (events (issue_loop (close_step e) ''Done''
                    (\<lambda>n. print (SetStatusDone n)) h e linked ghs c))"
      by (auto simp: sync_loops_merged(3) [OF merged])
    from goal [OF this] merged show ?thesis by simp
  next
    case closed
    from in_loops kind have "ev \<in> set (events (issue_loop (remove_step e)
                    ''Selected for Development''
                    (\<lambda>n. print (SetStatusSelected n)) h e linked ghs c))"
      by (auto simp: sync_loops_closed(3) [OF closed])
    from goal [OF this] closed show ?thesis by simp
  next
    case opened
    from in_loops kind have "ev \<in> set (events (issue_loop (assign_step e (target_assignees pr))
                    (if pr_draft pr then ''In Development'' else ''Ready For Review'')
                    (\<lambda>n. ret ()) h e linked ghs c))"
      by (auto simp: sync_loops_open(3) [OF opened])
    from goal [OF this] opened show ?thesis by simp
  qed
qed

lemma sync_merged_writes:
  assumes pull: "get_pull e k = Inr pr" and merged: "pr_merged pr"
  shows "RestRemoveAssignees n as \<notin> set (events (sync_issue_status_with_pr h e k c))"
    and "RestEditAssignees n as \<notin> set (events (sync_issue_status_with_pr h e k c))"
proof -
  have "ev \<notin> set (events (sync_issue_status_with_pr h e k c))"
    if kind: "ev = RestRemoveAssignees n as \<or> ev = RestEditAssignees n as" for ev
  proof
    assume ev: "ev \<in> set (events (sync_issue_status_with_pr h e k c))"
    from kind have "ev = RestEditState n [] \<or> ev = RestRemoveAssignees n as
                      \<or> ev = RestEditAssignees n as"
      by blast
    from sync_step_events [OF pull ev this] merged kind show False
      by (auto dest: step_events_kind)
  qed
  then show "RestRemoveAssignees n as \<notin> set (events (sync_issue_status_with_pr h e k c))"
    and "RestEditAssignees n as \<notin> set (events (sync_issue_status_with_pr h e k c))"
    by blast+
qed

lemma sync_closed_writes:
  assumes pull: "get_pull e k = Inr pr" and unmerged: "\<not> pr_merged pr"
      and closed: "pr_state pr = ''closed''"
  shows "RestEditState n st \<notin> set (events (sync_issue_status_with_pr h e k c))"
    and "RestEditAssignees n as \<notin> set (events (sync_issue_status_with_pr h e k c))"
proof -
  have "ev \<notin> set (events (sync_issue_status_with_pr h e k c))"
    if kind: "ev = RestEditState n st \<or> ev = RestEditAssignees n as" for ev
  proof
    assume ev: "ev \<in> set (events (sync_issue_status_with_pr h e k c))"
    from kind have "ev = RestEditState n st \<or> ev = RestRemoveAssignees n as
                      \<or> ev = RestEditAssignees n as"
      by blast
    from sync_step_events [OF pull ev this] unmerged closed kind show False
      by (auto dest: step_events_kind)
  qed
  then show "RestEditState n st \<notin> set (events (sync_issue_status_with_pr h e k c))"
    and "RestEditAssignees n as \<notin> set (events (sync_issue_status_with_pr h e k c))"
    by blast+
qed

lemma sync_open_writes:
  assumes pull: "get_pull e k = Inr pr" and unmerged: "\<not> pr_merged pr"
      and opened: "pr_state pr \<noteq> ''closed''"
  shows "RestEditState n st \<notin> set (events (sync_issue_status_with_pr h e k c))"
    and "RestRemoveAssignees n as \<notin> set (events (sync_issue_status_with_pr h e k c))"
    and "RestEditAssignees n as \<in> set (events (sync_issue_status_with_pr h e k c))
           \<Longrightarrow> as = target_assignees pr"
proof -
  have steps: "\<exists>m g ghs c'. ev \<in> set (events (assign_step e (target_assignees pr) m g ghs c'))"
    if ev: "ev \<in> set (events (sync_issue_status_with_pr h e k c))"
      and kind: "ev = RestEditState n st \<or> ev = RestRemoveAssignees n as
                      \<or> ev = RestEditAssignees n as" for ev
    using sync_step_events [OF pull ev kind] unmerged opened by simp
  show "RestEditState n st \<notin> set (events (sync_issue_status_with_pr h e k c))"
    using steps [of "RestEditState n st"]
    by (auto dest: step_events_kind)
  show "RestRemoveAssignees n as \<notin> set (events (sync_issue_status_with_pr h e k c))"
    using steps [of "RestRemoveAssignees n as"]
    by (auto dest: step_events_kind)
  show "as = target_assignees pr"
    if "RestEditAssignees n as \<in> set (events (sync_issue_status_with_pr h e k c))"
    using steps [of "RestEditAssignees n as"] that
    by (auto dest: step_events_kind)
qed

subsection \<open>The scenarios, run\<close>

lemmas program_defs = sync_issue_status_with_pr_def target_assignees_def
  get_pull_request_linked_issues_def set_issue_status_def resolve_issue_id_def
  get_issue_info_def get_status_field_id_def get_project_fields_def fetch_project_fields_def
  cache_hit_def status_ids_def set_field_option_def run_graphql_def truthy_int_def
  truthy_str_def bindE_def try_except_def call_def print_def ret_def raise_def

lemma run_merged:
  "sync_issue_status_with_pr h0 env_merged 42 None =
     (Inr (), Some (0, [status_field]),
      [RestGetPull 42, Post (LinkedIssuesQuery 42 ''bec-project'' ''demo''),
       Print (LinkedIssues
         [\<lparr>li_id = ''I_10'', li_body = [], li_number = 10, li_title = []\<rparr>,
          \<lparr>li_id = ''I_11'', li_body = [], li_number = 11, li_title = []\<rparr>]),
       Print (NoAssigneesUsingAuthor [''carol'']), RestGetIssue 10, RestGetIssue 11,
       Print PRIsMerged, RestEditState 10 ''closed'', Print (ClosedIssue 10), RestGetIssue 10,
       Post (IssueInfoQuery ''I_10''), Post (ProjectFieldsQuery ''PVT_1''),
       Post (SetFieldOptionMutation ''PVT_1'' (Some ''item_I_10'') ''F_status'' ''o_done''),
       Print (SetStatusDone 10), Print (AlreadyClosed 11), RestGetIssue 11,
       Post (IssueInfoQuery ''I_11''),
       Post (SetFieldOptionMutation ''PVT_1'' (Some ''item_I_11'') ''F_status'' ''o_done''),
       Print (SetStatusDone 11)])"
  by (simp add: program_defs scenario_defs)

lemma run_closed:
  "sync_issue_status_with_pr h0 env_closed 7 None =
     (Inr (), Some (0, [status_field]),
      [RestGetPull 7, Post (LinkedIssuesQuery 7 ''bec-project'' ''demo''),
       Print (LinkedIssues [\<lparr>li_id = ''I_5'', li_body = [], li_number = 5, li_title = []\<rparr>]),
       Print (NoAssigneesUsingAuthor [''carol'']), RestGetIssue 5,
       Print PRClosedWithoutMerging, RestRemoveAssignees 5 [''alice''],
       Print (CouldNotRemoveAssignees 5 (GithubException 403)), RestGetIssue 5,
       Post (IssueInfoQuery ''I_5''), Post (ProjectFieldsQuery ''PVT_1''),
       Post (SetFieldOptionMutation ''PVT_1'' (Some ''item_I_5'') ''F_status'' ''o_selected''),
       Print (SetStatusSelected 5)])"
  by (simp add: program_defs scenario_defs)

lemma run_open:
  "sync_issue_status_with_pr h0 env_open 3 None =
     (Inr (), Some (0, [status_field]),
      [RestGetPull 3, Post (LinkedIssuesQuery 3 ''bec-project'' ''demo''),
       Print (LinkedIssues [\<lparr>li_id = ''I_2'', li_body = [], li_number = 2, li_title = []\<rparr>]),
       Print (NoAssigneesUsingAuthor [''bob'']), RestGetIssue 2,
       Print (TargetStatus ''In Development''), RestEditAssignees 2 [''bob''],
       Print (AssignedIssue 2 [''bob'']), RestGetIssue 2,
       Post (IssueInfoQuery ''I_2''), Post (ProjectFieldsQuery ''PVT_1''),
       Post (SetFieldOptionMutation ''PVT_1'' (Some ''item_I_2'') ''F_status'' ''o_dev'')])"
  by (simp add: program_defs scenario_defs)

lemma linked_merged:
  "outcome (get_pull_request_linked_issues h0 env_merged 42 None) =
     Inr [\<lparr>li_id = ''I_10'', li_body = [], li_number = 10, li_title = []\<rparr>,
          \<lparr>li_id = ''I_11'', li_body = [], li_number = 11, li_title = []\<rparr>]"
  by (simp add: program_defs scenario_defs)

lemma linked_closed:
  "outcome (get_pull_request_linked_issues h0 env_closed 7 None) =
     Inr [\<lparr>li_id = ''I_5'', li_body = [], li_number = 5, li_title = []\<rparr>]"
  by (simp add: program_defs scenario_defs)

lemma linked_open:
  "outcome (get_pull_request_linked_issues h0 env_open 3 None) =
     Inr [\<lparr>li_id = ''I_2'', li_body = [], li_number = 2, li_title = []\<rparr>]"
  by (simp add: program_defs scenario_defs)

lemma run_ready:
  "sync_issue_status_with_pr h0 env_ready 4 None =
     (Inr (), Some (0, [status_field]),
      [RestGetPull 4, Post (LinkedIssuesQuery 4 ''bec-project'' ''demo''),
       Print (LinkedIssues [\<lparr>li_id = ''I_2'', li_body = [], li_number = 2, li_title = []\<rparr>]),
       Print (PRAssignees [''dave'']), RestGetIssue 2,
       Print (TargetStatus ''Ready For Review''), RestEditAssignees 2 [''dave''],
       Print (AssignedIssue 2 [''dave'']), RestGetIssue 2,
       Post (IssueInfoQuery ''I_2''), Post (ProjectFieldsQuery ''PVT_1''),
       Post (SetFieldOptionMutation ''PVT_1'' (Some ''item_I_2'') ''F_status'' ''o_review'')])"
  by (simp add: program_defs scenario_defs env_ready_def)

lemma linked_ready:
  "outcome (get_pull_request_linked_issues h0 env_ready 4 None) =
     Inr [\<lparr>li_id = ''I_2'', li_body = [], li_number = 2, li_title = []\<rparr>]"
  by (simp add: program_defs scenario_defs env_ready_def)

subsection \<open>A merged pull request\<close>

lemma close_step_local:
  "outcome (close_step e m g ghs c) = Inr ghs1 \<Longrightarrow> m \<noteq> n \<Longrightarrow> ghs1 n = ghs n"
  by (auto simp: close_step_outcome split: if_splits sum.splits)

lemma remove_step_local:
  "outcome (remove_step e m g ghs c) = Inr ghs1 \<Longrightarrow> m \<noteq> n \<Longrightarrow> ghs1 n = ghs n"
  by (auto simp: remove_step_outcome split: if_splits sum.splits)

lemma assign_step_local:
  "outcome (assign_step e as m g ghs c) = Inr ghs1 \<Longrightarrow> m \<noteq> n \<Longrightarrow> ghs1 n = ghs n"
  by (auto simp: assign_step_outcome split: if_splits sum.splits)

text \<open>
  C1: when the pull request is merged and the run returns, then for every linked issue
  the run has posted the mutation that gives the issue's project item the option called
  \<open>Done\<close> of the field \<open>Status\<close>, and it has edited the issue to \<open>closed\<close> if the issue
  was open. The run writes nothing else to the project: every mutation it has posted
  gives the project item of a linked issue that same option of that same field. And it
  has neither removed nor edited the assignees of any issue. Nothing is assumed about
  the draft flag, the state or the assignees of the pull request.
\<close>

theorem merged_pr_closes_and_sets_done:
  assumes pull: "get_pull e k = Inr pr"
      and merged: "pr_merged pr"
      and linked: "outcome (get_pull_request_linked_issues h e k c) = Inr linked"
      and ok: "outcome (sync_issue_status_with_pr h e k c) = Inr ()"
      and mem: "issue \<in> set linked"
  shows "\<exists>g item its fs field_id option_id.
           get_issue e (li_number issue) = Inr g
         \<and> outcome (get_issue_info e (gi_node_id g) c) = Inr (item # its)
         \<and> cache_hit h (cache_after (sync_issue_status_with_pr h e k c)) = Some fs
         \<and> status_ids fs ''Done'' = Inr (field_id, option_id)
         \<and> status_option fs ''Done'' option_id
         \<and> Post (SetFieldOptionMutation (project_node_id h) (Some (item_id item))
                   field_id option_id)
             \<in> set (events (sync_issue_status_with_pr h e k c))
         \<and> (gi_state g = ''open'' \<longrightarrow>
               RestEditState (li_number issue) ''closed''
                 \<in> set (events (sync_issue_status_with_pr h e k c)))
         \<and> (\<forall>ev \<in> set (events (sync_issue_status_with_pr h e k c)). is_mutation ev \<longrightarrow>
               (\<exists>issue' \<in> set linked. \<exists>g' item' its'.
                   get_issue e (li_number issue') = Inr g'
                 \<and> outcome (get_issue_info e (gi_node_id g') c) = Inr (item' # its')
                 \<and> ev = Post (SetFieldOptionMutation (project_node_id h) (Some (item_id item'))
                               field_id option_id)))
         \<and> (\<forall>n as. RestRemoveAssignees n as \<notin> set (events (sync_issue_status_with_pr h e k c))
                  \<and> RestEditAssignees n as \<notin> set (events (sync_issue_status_with_pr h e k c)))"
proof -
  have t: "target_status pr = ''Done''"
    using merged by (simp add: target_status_def)
  from sync_sets_status [OF ok pull linked mem] obtain g item its fs field_id option_id where
      g: "get_issue e (li_number issue) = Inr g"
      and item: "outcome (get_issue_info e (gi_node_id g) c) = Inr (item # its)"
      and fs: "cache_hit h (cache_after (sync_issue_status_with_pr h e k c)) = Some fs"
      and ids: "status_ids fs ''Done'' = Inr (field_id, option_id)"
      and post: "Post (SetFieldOptionMutation (project_node_id h) (Some (item_id item))
                   field_id option_id)
                 \<in> set (events (sync_issue_status_with_pr h e k c))"
    unfolding t by blast
  have closes: "RestEditState (li_number issue) ''closed''
                  \<in> set (events (sync_issue_status_with_pr h e k c))"
    if "gi_state g = ''open''"
  proof (rule sync_step_event [OF ok pull linked mem g,
           where step = "close_step e" and status = "''Done''"
             and after = "\<lambda>n. print (SetStatusDone n)"])
    fix ghs
    show "outcome (sync_loops h e pr linked ghs c)
            = outcome (issue_loop (close_step e) ''Done'' (\<lambda>n. print (SetStatusDone n))
                         h e linked ghs c)
          \<and> set (events (issue_loop (close_step e) ''Done'' (\<lambda>n. print (SetStatusDone n))
                         h e linked ghs c))
              \<subseteq> set (events (sync_loops h e pr linked ghs c))"
      by (auto simp: sync_loops_merged [OF merged])
  next
    fix ghs c'
    show "RestEditState (li_number issue) ''closed''
            \<in> set (events (close_step e (li_number issue) g ghs c'))"
      using that by (simp add: close_step_events)
  qed (simp_all add: close_step_local)
  have only: "\<exists>issue' \<in> set linked. \<exists>g' item' its'.
                   get_issue e (li_number issue') = Inr g'
                 \<and> outcome (get_issue_info e (gi_node_id g') c) = Inr (item' # its')
                 \<and> ev = Post (SetFieldOptionMutation (project_node_id h) (Some (item_id item'))
                               field_id option_id)"
    if ev: "ev \<in> set (events (sync_issue_status_with_pr h e k c))" and mut: "is_mutation ev"
    for ev
  proof -
    from sync_mutations [OF pull linked ev mut] obtain issue' g' item' its' fs' f' o' where
        mem': "issue' \<in> set linked"
        and g': "get_issue e (li_number issue') = Inr g'"
        and item': "outcome (get_issue_info e (gi_node_id g') c) = Inr (item' # its')"
        and fs': "cache_hit h (cache_after (sync_issue_status_with_pr h e k c)) = Some fs'"
        and ids': "status_ids fs' ''Done'' = Inr (f', o')"
        and ev_eq: "ev = Post (SetFieldOptionMutation (project_node_id h) (Some (item_id item'))
                          f' o')"
      unfolding t by blast
    from fs fs' ids ids' have "f' = field_id" "o' = option_id" by simp_all
    with mem' g' item' ev_eq show ?thesis by blast
  qed
  note writes = sync_merged_writes [OF pull merged, where h = h and c = c]
  from status_ids_sound [OF ids] have so: "status_option fs ''Done'' option_id" by simp
  show ?thesis
  proof (intro exI conjI ballI impI allI)
    show "get_issue e (li_number issue) = Inr g" by (rule g)
    show "outcome (get_issue_info e (gi_node_id g) c) = Inr (item # its)" by (rule item)
    show "cache_hit h (cache_after (sync_issue_status_with_pr h e k c)) = Some fs" by (rule fs)
    show "status_ids fs ''Done'' = Inr (field_id, option_id)" by (rule ids)
    show "status_option fs ''Done'' option_id" by (rule so)
    show "Post (SetFieldOptionMutation (project_node_id h) (Some (item_id item))
                   field_id option_id)
             \<in> set (events (sync_issue_status_with_pr h e k c))" by (rule post)
    show "RestEditState (li_number issue) ''closed''
                 \<in> set (events (sync_issue_status_with_pr h e k c))"
      if "gi_state g = ''open''" using that by (rule closes)
    show "\<exists>issue' \<in> set linked. \<exists>g' item' its'.
                   get_issue e (li_number issue') = Inr g'
                 \<and> outcome (get_issue_info e (gi_node_id g') c) = Inr (item' # its')
                 \<and> ev = Post (SetFieldOptionMutation (project_node_id h) (Some (item_id item'))
                               field_id option_id)"
      if "ev \<in> set (events (sync_issue_status_with_pr h e k c))" "is_mutation ev" for ev
      using that by (rule only)
    show "RestRemoveAssignees n as \<notin> set (events (sync_issue_status_with_pr h e k c))" for n as
      by (rule writes(1))
    show "RestEditAssignees n as \<notin> set (events (sync_issue_status_with_pr h e k c))" for n as
      by (rule writes(2))
  qed
qed

theorem merged_pr_closes_and_sets_done_witness:
  "get_pull env_merged 42
     = Inr \<lparr>pr_merged = True, pr_state = ''closed'', pr_draft = False, pr_assignees = [],
            pr_user = ''carol''\<rparr>
   \<and> outcome (get_pull_request_linked_issues h0 env_merged 42 None)
       = Inr [\<lparr>li_id = ''I_10'', li_body = [], li_number = 10, li_title = []\<rparr>,
              \<lparr>li_id = ''I_11'', li_body = [], li_number = 11, li_title = []\<rparr>]
   \<and> outcome (sync_issue_status_with_pr h0 env_merged 42 None) = Inr ()
   \<and> Post (SetFieldOptionMutation ''PVT_1'' (Some ''item_I_10'') ''F_status'' ''o_done'')
       \<in> set (events (sync_issue_status_with_pr h0 env_merged 42 None))
   \<and> RestEditState 10 ''closed'' \<in> set (events (sync_issue_status_with_pr h0 env_merged 42 None))
   \<and> Post (SetFieldOptionMutation ''PVT_1'' (Some ''item_I_10'') ''F_status'' ''o_selected'')
       \<notin> set (events (sync_issue_status_with_pr h0 env_merged 42 None))
   \<and> RestRemoveAssignees 10 [''alice'']
       \<notin> set (events (sync_issue_status_with_pr h0 env_merged 42 None))"
proof -
  let ?pr = "\<lparr>pr_merged = True, pr_state = ''closed'', pr_draft = False, pr_assignees = [],
              pr_user = ''carol''\<rparr>"
  let ?i10 = "\<lparr>li_id = ''I_10'', li_body = [], li_number = 10, li_title = []\<rparr>"
  let ?i11 = "\<lparr>li_id = ''I_11'', li_body = [], li_number = 11, li_title = []\<rparr>"
  have pull: "get_pull env_merged 42 = Inr ?pr"
    by (simp add: env_merged_def github_def)
  have merged: "pr_merged ?pr" by simp
  have ok: "outcome (sync_issue_status_with_pr h0 env_merged 42 None) = Inr ()"
    by (simp add: run_merged)
  have mem: "?i10 \<in> set [?i10, ?i11]" by simp
  from merged_pr_closes_and_sets_done [OF pull merged linked_merged ok mem]
  obtain g item its fs field_id option_id where
      g: "get_issue env_merged (li_number ?i10) = Inr g"
      and item: "outcome (get_issue_info env_merged (gi_node_id g) None) = Inr (item # its)"
      and fs: "cache_hit h0 (cache_after (sync_issue_status_with_pr h0 env_merged 42 None)) = Some fs"
      and ids: "status_ids fs ''Done'' = Inr (field_id, option_id)"
      and post: "Post (SetFieldOptionMutation (project_node_id h0) (Some (item_id item))
                   field_id option_id)
                 \<in> set (events (sync_issue_status_with_pr h0 env_merged 42 None))"
      and closes: "gi_state g = ''open'' \<longrightarrow>
               RestEditState (li_number ?i10) ''closed''
                 \<in> set (events (sync_issue_status_with_pr h0 env_merged 42 None))"
      and only: "\<forall>ev \<in> set (events (sync_issue_status_with_pr h0 env_merged 42 None)).
               is_mutation ev \<longrightarrow>
               (\<exists>issue' \<in> set [?i10, ?i11]. \<exists>g' item' its'.
                   get_issue env_merged (li_number issue') = Inr g'
                 \<and> outcome (get_issue_info env_merged (gi_node_id g') None) = Inr (item' # its')
                 \<and> ev = Post (SetFieldOptionMutation (project_node_id h0) (Some (item_id item'))
                               field_id option_id))"
      and writes: "\<forall>n as.
               RestRemoveAssignees n as \<notin> set (events (sync_issue_status_with_pr h0 env_merged 42 None))
             \<and> RestEditAssignees n as \<notin> set (events (sync_issue_status_with_pr h0 env_merged 42 None))"
    by blast
  from g have g_eq: "g = \<lparr>gi_node_id = ''I_10'', gi_state = ''open'', gi_assignees = []\<rparr>"
    by (simp add: env_merged_def github_def github_issue_def)
  from item have item_eq: "item_id item = ''item_I_10''"
    by (auto simp: g_eq get_issue_info_def run_graphql_def bindE_def call_def ret_def raise_def
          env_merged_def github_def github_post_def http_200_def)
  from fs have "fs = [status_field]"
    unfolding run_merged by (simp add: cache_hit_def h0_def)
  with ids have ids_eq: "field_id = ''F_status''" "option_id = ''o_done''"
    by (simp_all add: status_ids_def truthy_str_def status_field_def)
  from post have "Post (SetFieldOptionMutation ''PVT_1'' (Some ''item_I_10'') ''F_status'' ''o_done'')
       \<in> set (events (sync_issue_status_with_pr h0 env_merged 42 None))"
    by (simp only: item_eq ids_eq) (simp add: h0_def)
  moreover from closes
  have "RestEditState 10 ''closed'' \<in> set (events (sync_issue_status_with_pr h0 env_merged 42 None))"
    by (simp add: g_eq)
  moreover have "Post (SetFieldOptionMutation ''PVT_1'' (Some ''item_I_10'') ''F_status'' ''o_selected'')
       \<notin> set (events (sync_issue_status_with_pr h0 env_merged 42 None))"
  proof
    assume "Post (SetFieldOptionMutation ''PVT_1'' (Some ''item_I_10'') ''F_status'' ''o_selected'')
       \<in> set (events (sync_issue_status_with_pr h0 env_merged 42 None))"
    with only have "\<exists>i. SetFieldOptionMutation ''PVT_1'' (Some ''item_I_10'') ''F_status'' ''o_selected''
                      = SetFieldOptionMutation (project_node_id h0) i field_id option_id"
      by fastforce
    with ids_eq show False by simp
  qed
  moreover from writes
  have "RestRemoveAssignees 10 [''alice'']
          \<notin> set (events (sync_issue_status_with_pr h0 env_merged 42 None))"
    by blast
  ultimately show ?thesis using pull linked_merged ok by blast
qed

subsection \<open>An open pull request\<close>

text \<open>
  C2: when the pull request is not merged, its state is \<open>open\<close> and the run returns,
  then for every linked issue the run has posted the mutation that gives the issue's
  project item the option called \<open>In Development\<close> if the pull request is a draft and
  \<open>Ready For Review\<close> if it is not; and if the set of the issue's assignees differs from
  the set of the pull request's assignees (of its author alone, when it has none), the
  run has edited the issue's assignees to that list. The run writes nothing else:
  every mutation it has posted gives the project item of a linked issue that same
  option, so a pull request that is not a draft writes no \<open>In Development\<close> and a draft
  no \<open>Ready For Review\<close>; every edit of assignees sets that list; and the run has neither
  edited the state of an issue nor removed assignees.
\<close>

theorem open_pr_sets_status_and_assigns:
  assumes pull: "get_pull e k = Inr pr"
      and unmerged: "\<not> pr_merged pr"
      and opened: "pr_state pr = ''open''"
      and linked: "outcome (get_pull_request_linked_issues h e k c) = Inr linked"
      and ok: "outcome (sync_issue_status_with_pr h e k c) = Inr ()"
      and mem: "issue \<in> set linked"
  shows "\<exists>g item its fs field_id option_id.
           get_issue e (li_number issue) = Inr g
         \<and> outcome (get_issue_info e (gi_node_id g) c) = Inr (item # its)
         \<and> cache_hit h (cache_after (sync_issue_status_with_pr h e k c)) = Some fs
         \<and> status_ids fs (if pr_draft pr then ''In Development'' else ''Ready For Review'')
             = Inr (field_id, option_id)
         \<and> status_option fs (if pr_draft pr then ''In Development'' else ''Ready For Review'')
             option_id
         \<and> Post (SetFieldOptionMutation (project_node_id h) (Some (item_id item))
                   field_id option_id)
             \<in> set (events (sync_issue_status_with_pr h e k c))
         \<and> (set (gi_assignees g)
               \<noteq> set (if pr_assignees pr = [] then [pr_user pr] else pr_assignees pr) \<longrightarrow>
               RestEditAssignees (li_number issue)
                   (if pr_assignees pr = [] then [pr_user pr] else pr_assignees pr)
                 \<in> set (events (sync_issue_status_with_pr h e k c)))
         \<and> (\<forall>ev \<in> set (events (sync_issue_status_with_pr h e k c)). is_mutation ev \<longrightarrow>
               (\<exists>issue' \<in> set linked. \<exists>g' item' its'.
                   get_issue e (li_number issue') = Inr g'
                 \<and> outcome (get_issue_info e (gi_node_id g') c) = Inr (item' # its')
                 \<and> ev = Post (SetFieldOptionMutation (project_node_id h) (Some (item_id item'))
                               field_id option_id)))
         \<and> (\<forall>n as. RestEditAssignees n as \<in> set (events (sync_issue_status_with_pr h e k c)) \<longrightarrow>
               as = (if pr_assignees pr = [] then [pr_user pr] else pr_assignees pr))
         \<and> (\<forall>n st as. RestEditState n st \<notin> set (events (sync_issue_status_with_pr h e k c))
                  \<and> RestRemoveAssignees n as \<notin> set (events (sync_issue_status_with_pr h e k c)))"
proof -
  let ?status = "if pr_draft pr then ''In Development'' else ''Ready For Review''"
  let ?as = "if pr_assignees pr = [] then [pr_user pr] else pr_assignees pr"
  from opened have not_closed: "pr_state pr \<noteq> ''closed''" by simp
  have t: "target_status pr = ?status"
    using unmerged not_closed by (simp add: target_status_def)
  have as: "target_assignees pr = ?as"
    by (simp add: target_assignees_def)
  from sync_sets_status [OF ok pull linked mem] obtain g item its fs field_id option_id where
      g: "get_issue e (li_number issue) = Inr g"
      and item: "outcome (get_issue_info e (gi_node_id g) c) = Inr (item # its)"
      and fs: "cache_hit h (cache_after (sync_issue_status_with_pr h e k c)) = Some fs"
      and ids: "status_ids fs ?status = Inr (field_id, option_id)"
      and post: "Post (SetFieldOptionMutation (project_node_id h) (Some (item_id item))
                   field_id option_id)
                 \<in> set (events (sync_issue_status_with_pr h e k c))"
    unfolding t by blast
  have assigns: "RestEditAssignees (li_number issue) ?as
                  \<in> set (events (sync_issue_status_with_pr h e k c))"
    if "set (gi_assignees g) \<noteq> set ?as"
  proof (rule sync_step_event [OF ok pull linked mem g,
           where step = "assign_step e ?as" and status = ?status and after = "\<lambda>n. ret ()"])
    fix ghs
    show "outcome (sync_loops h e pr linked ghs c)
            = outcome (issue_loop (assign_step e ?as) ?status (\<lambda>n. ret ()) h e linked ghs c)
          \<and> set (events (issue_loop (assign_step e ?as) ?status (\<lambda>n. ret ()) h e linked ghs c))
              \<subseteq> set (events (sync_loops h e pr linked ghs c))"
      unfolding sync_loops_open [OF unmerged not_closed] as by auto
  next
    fix ghs c'
    show "RestEditAssignees (li_number issue) ?as
            \<in> set (events (assign_step e ?as (li_number issue) g ghs c'))"
      using that by (simp add: assign_step_events)
  qed (simp_all add: assign_step_local)
  have only: "\<exists>issue' \<in> set linked. \<exists>g' item' its'.
                   get_issue e (li_number issue') = Inr g'
                 \<and> outcome (get_issue_info e (gi_node_id g') c) = Inr (item' # its')
                 \<and> ev = Post (SetFieldOptionMutation (project_node_id h) (Some (item_id item'))
                               field_id option_id)"
    if ev: "ev \<in> set (events (sync_issue_status_with_pr h e k c))" and mut: "is_mutation ev"
    for ev
  proof -
    from sync_mutations [OF pull linked ev mut] obtain issue' g' item' its' fs' f' o' where
        mem': "issue' \<in> set linked"
        and g': "get_issue e (li_number issue') = Inr g'"
        and item': "outcome (get_issue_info e (gi_node_id g') c) = Inr (item' # its')"
        and fs': "cache_hit h (cache_after (sync_issue_status_with_pr h e k c)) = Some fs'"
        and ids': "status_ids fs' ?status = Inr (f', o')"
        and ev_eq: "ev = Post (SetFieldOptionMutation (project_node_id h) (Some (item_id item'))
                          f' o')"
      unfolding t by blast
    from fs fs' ids ids' have "f' = field_id" "o' = option_id" by simp_all
    with mem' g' item' ev_eq show ?thesis by blast
  qed
  note writes = sync_open_writes [OF pull unmerged not_closed, where h = h and c = c]
  from status_ids_sound [OF ids] have so: "status_option fs ?status option_id" by simp
  show ?thesis
  proof (intro exI conjI ballI impI allI)
    show "get_issue e (li_number issue) = Inr g" by (rule g)
    show "outcome (get_issue_info e (gi_node_id g) c) = Inr (item # its)" by (rule item)
    show "cache_hit h (cache_after (sync_issue_status_with_pr h e k c)) = Some fs" by (rule fs)
    show "status_ids fs ?status = Inr (field_id, option_id)" by (rule ids)
    show "status_option fs ?status option_id" by (rule so)
    show "Post (SetFieldOptionMutation (project_node_id h) (Some (item_id item))
                   field_id option_id)
             \<in> set (events (sync_issue_status_with_pr h e k c))" by (rule post)
    show "\<exists>issue' \<in> set linked. \<exists>g' item' its'.
                   get_issue e (li_number issue') = Inr g'
                 \<and> outcome (get_issue_info e (gi_node_id g') c) = Inr (item' # its')
                 \<and> ev = Post (SetFieldOptionMutation (project_node_id h) (Some (item_id item'))
                               field_id option_id)"
      if "ev \<in> set (events (sync_issue_status_with_pr h e k c))" "is_mutation ev" for ev
      using that by (rule only)
    show "RestEditAssignees (li_number issue) ?as
            \<in> set (events (sync_issue_status_with_pr h e k c))"
      if "set (gi_assignees g) \<noteq> set ?as" using that by (rule assigns)
    show "as = ?as"
      if "RestEditAssignees n as \<in> set (events (sync_issue_status_with_pr h e k c))" for n as
      using writes(3) [OF that] by (simp add: as)
    show "RestEditState n st \<notin> set (events (sync_issue_status_with_pr h e k c))" for n st
      by (rule writes(1))
    show "RestRemoveAssignees n as \<notin> set (events (sync_issue_status_with_pr h e k c))" for n as
      by (rule writes(2))
  qed
qed



theorem open_pr_sets_status_and_assigns_witness:
  "get_pull env_open 3
     = Inr \<lparr>pr_merged = False, pr_state = ''open'', pr_draft = True, pr_assignees = [],
            pr_user = ''bob''\<rparr>
   \<and> outcome (get_pull_request_linked_issues h0 env_open 3 None)
       = Inr [\<lparr>li_id = ''I_2'', li_body = [], li_number = 2, li_title = []\<rparr>]
   \<and> outcome (sync_issue_status_with_pr h0 env_open 3 None) = Inr ()
   \<and> Post (SetFieldOptionMutation ''PVT_1'' (Some ''item_I_2'') ''F_status'' ''o_dev'')
       \<in> set (events (sync_issue_status_with_pr h0 env_open 3 None))
   \<and> RestEditAssignees 2 [''bob''] \<in> set (events (sync_issue_status_with_pr h0 env_open 3 None))
   \<and> Post (SetFieldOptionMutation ''PVT_1'' (Some ''item_I_2'') ''F_status'' ''o_review'')
       \<notin> set (events (sync_issue_status_with_pr h0 env_open 3 None))
   \<and> RestEditState 2 ''closed'' \<notin> set (events (sync_issue_status_with_pr h0 env_open 3 None))
   \<and> get_pull env_ready 4
       = Inr \<lparr>pr_merged = False, pr_state = ''open'', pr_draft = False,
              pr_assignees = [''dave''], pr_user = ''bob''\<rparr>
   \<and> outcome (sync_issue_status_with_pr h0 env_ready 4 None) = Inr ()
   \<and> Post (SetFieldOptionMutation ''PVT_1'' (Some ''item_I_2'') ''F_status'' ''o_review'')
       \<in> set (events (sync_issue_status_with_pr h0 env_ready 4 None))
   \<and> Post (SetFieldOptionMutation ''PVT_1'' (Some ''item_I_2'') ''F_status'' ''o_dev'')
       \<notin> set (events (sync_issue_status_with_pr h0 env_ready 4 None))
   \<and> RestEditAssignees 2 [''bob''] \<notin> set (events (sync_issue_status_with_pr h0 env_ready 4 None))"
proof -
  let ?pr = "\<lparr>pr_merged = False, pr_state = ''open'', pr_draft = True, pr_assignees = [],
              pr_user = ''bob''\<rparr>"
  let ?pr' = "\<lparr>pr_merged = False, pr_state = ''open'', pr_draft = False,
               pr_assignees = [''dave''], pr_user = ''bob''\<rparr>"
  let ?i2 = "\<lparr>li_id = ''I_2'', li_body = [], li_number = 2, li_title = []\<rparr>"
  have pull: "get_pull env_open 3 = Inr ?pr"
    by (simp add: env_open_def github_def)
  have unmerged: "\<not> pr_merged ?pr" and opened: "pr_state ?pr = ''open''" by simp_all
  have ok: "outcome (sync_issue_status_with_pr h0 env_open 3 None) = Inr ()"
    by (simp add: run_open)
  have mem: "?i2 \<in> set [?i2]" by simp
  have draft: "Post (SetFieldOptionMutation ''PVT_1'' (Some ''item_I_2'') ''F_status'' ''o_dev'')
       \<in> set (events (sync_issue_status_with_pr h0 env_open 3 None))
     \<and> RestEditAssignees 2 [''bob''] \<in> set (events (sync_issue_status_with_pr h0 env_open 3 None))
     \<and> Post (SetFieldOptionMutation ''PVT_1'' (Some ''item_I_2'') ''F_status'' ''o_review'')
       \<notin> set (events (sync_issue_status_with_pr h0 env_open 3 None))
     \<and> RestEditState 2 ''closed'' \<notin> set (events (sync_issue_status_with_pr h0 env_open 3 None))"
  proof -
    from open_pr_sets_status_and_assigns [OF pull unmerged opened linked_open ok mem]
    obtain g item its fs field_id option_id where
        g: "get_issue env_open (li_number ?i2) = Inr g"
        and item: "outcome (get_issue_info env_open (gi_node_id g) None) = Inr (item # its)"
        and fs: "cache_hit h0 (cache_after (sync_issue_status_with_pr h0 env_open 3 None)) = Some fs"
        and ids: "status_ids fs (if pr_draft ?pr then ''In Development'' else ''Ready For Review'')
                    = Inr (field_id, option_id)"
        and post: "Post (SetFieldOptionMutation (project_node_id h0) (Some (item_id item))
                     field_id option_id)
                   \<in> set (events (sync_issue_status_with_pr h0 env_open 3 None))"
        and assigns: "set (gi_assignees g)
                 \<noteq> set (if pr_assignees ?pr = [] then [pr_user ?pr] else pr_assignees ?pr) \<longrightarrow>
                 RestEditAssignees (li_number ?i2)
                     (if pr_assignees ?pr = [] then [pr_user ?pr] else pr_assignees ?pr)
                   \<in> set (events (sync_issue_status_with_pr h0 env_open 3 None))"
        and only: "\<forall>ev \<in> set (events (sync_issue_status_with_pr h0 env_open 3 None)).
                 is_mutation ev \<longrightarrow>
                 (\<exists>issue' \<in> set [?i2]. \<exists>g' item' its'.
                     get_issue env_open (li_number issue') = Inr g'
                   \<and> outcome (get_issue_info env_open (gi_node_id g') None) = Inr (item' # its')
                   \<and> ev = Post (SetFieldOptionMutation (project_node_id h0) (Some (item_id item'))
                                 field_id option_id))"
        and writes: "\<forall>n st as.
                 RestEditState n st \<notin> set (events (sync_issue_status_with_pr h0 env_open 3 None))
               \<and> RestRemoveAssignees n as
                   \<notin> set (events (sync_issue_status_with_pr h0 env_open 3 None))"
      by blast
    from g have g_eq: "g = \<lparr>gi_node_id = ''I_2'', gi_state = ''open'', gi_assignees = []\<rparr>"
      by (simp add: env_open_def github_def github_issue_def)
    from item have item_eq: "item_id item = ''item_I_2''"
      by (auto simp: g_eq get_issue_info_def run_graphql_def bindE_def call_def ret_def raise_def
            env_open_def github_def github_post_def http_200_def)
    from fs have "fs = [status_field]"
      unfolding run_open by (simp add: cache_hit_def h0_def)
    with ids have ids_eq: "field_id = ''F_status''" "option_id = ''o_dev''"
      by (simp_all add: status_ids_def truthy_str_def status_field_def)
    from post have "Post (SetFieldOptionMutation ''PVT_1'' (Some ''item_I_2'') ''F_status'' ''o_dev'')
         \<in> set (events (sync_issue_status_with_pr h0 env_open 3 None))"
      by (simp only: item_eq ids_eq) (simp add: h0_def)
    moreover from assigns
    have "RestEditAssignees 2 [''bob''] \<in> set (events (sync_issue_status_with_pr h0 env_open 3 None))"
      by (simp add: g_eq)
    moreover have "Post (SetFieldOptionMutation ''PVT_1'' (Some ''item_I_2'') ''F_status'' ''o_review'')
         \<notin> set (events (sync_issue_status_with_pr h0 env_open 3 None))"
    proof
      assume "Post (SetFieldOptionMutation ''PVT_1'' (Some ''item_I_2'') ''F_status'' ''o_review'')
         \<in> set (events (sync_issue_status_with_pr h0 env_open 3 None))"
      with only have "\<exists>i. SetFieldOptionMutation ''PVT_1'' (Some ''item_I_2'') ''F_status'' ''o_review''
                        = SetFieldOptionMutation (project_node_id h0) i field_id option_id"
        by fastforce
      with ids_eq show False by simp
    qed
    moreover from writes
    have "RestEditState 2 ''closed'' \<notin> set (events (sync_issue_status_with_pr h0 env_open 3 None))"
      by blast
    ultimately show ?thesis by blast
  qed
  have pull': "get_pull env_ready 4 = Inr ?pr'"
    by (simp add: env_ready_def github_def)
  have unmerged': "\<not> pr_merged ?pr'" and opened': "pr_state ?pr' = ''open''" by simp_all
  have ok': "outcome (sync_issue_status_with_pr h0 env_ready 4 None) = Inr ()"
    by (simp add: run_ready)
  have ready: "Post (SetFieldOptionMutation ''PVT_1'' (Some ''item_I_2'') ''F_status'' ''o_review'')
       \<in> set (events (sync_issue_status_with_pr h0 env_ready 4 None))
     \<and> Post (SetFieldOptionMutation ''PVT_1'' (Some ''item_I_2'') ''F_status'' ''o_dev'')
       \<notin> set (events (sync_issue_status_with_pr h0 env_ready 4 None))
     \<and> RestEditAssignees 2 [''bob'']
       \<notin> set (events (sync_issue_status_with_pr h0 env_ready 4 None))"
  proof -
    from open_pr_sets_status_and_assigns [OF pull' unmerged' opened' linked_ready ok' mem]
    obtain g item its fs field_id option_id where
        g: "get_issue env_ready (li_number ?i2) = Inr g"
        and item: "outcome (get_issue_info env_ready (gi_node_id g) None) = Inr (item # its)"
        and fs: "cache_hit h0 (cache_after (sync_issue_status_with_pr h0 env_ready 4 None)) = Some fs"
        and ids: "status_ids fs (if pr_draft ?pr' then ''In Development'' else ''Ready For Review'')
                    = Inr (field_id, option_id)"
        and post: "Post (SetFieldOptionMutation (project_node_id h0) (Some (item_id item))
                     field_id option_id)
                   \<in> set (events (sync_issue_status_with_pr h0 env_ready 4 None))"
        and only: "\<forall>ev \<in> set (events (sync_issue_status_with_pr h0 env_ready 4 None)).
                 is_mutation ev \<longrightarrow>
                 (\<exists>issue' \<in> set [?i2]. \<exists>g' item' its'.
                     get_issue env_ready (li_number issue') = Inr g'
                   \<and> outcome (get_issue_info env_ready (gi_node_id g') None) = Inr (item' # its')
                   \<and> ev = Post (SetFieldOptionMutation (project_node_id h0) (Some (item_id item'))
                                 field_id option_id))"
        and edits: "\<forall>n as. RestEditAssignees n as
                   \<in> set (events (sync_issue_status_with_pr h0 env_ready 4 None)) \<longrightarrow>
                 as = (if pr_assignees ?pr' = [] then [pr_user ?pr'] else pr_assignees ?pr')"
      by blast
    from g have g_eq: "g = \<lparr>gi_node_id = ''I_2'', gi_state = ''open'', gi_assignees = []\<rparr>"
      by (simp add: env_ready_def github_def github_issue_def)
    from item have item_eq: "item_id item = ''item_I_2''"
      by (auto simp: g_eq get_issue_info_def run_graphql_def bindE_def call_def ret_def raise_def
            env_ready_def github_def github_post_def http_200_def)
    from fs have "fs = [status_field]"
      unfolding run_ready by (simp add: cache_hit_def h0_def)
    with ids have ids_eq: "field_id = ''F_status''" "option_id = ''o_review''"
      by (simp_all add: status_ids_def truthy_str_def status_field_def)
    from post have "Post (SetFieldOptionMutation ''PVT_1'' (Some ''item_I_2'') ''F_status'' ''o_review'')
         \<in> set (events (sync_issue_status_with_pr h0 env_ready 4 None))"
      by (simp only: item_eq ids_eq) (simp add: h0_def)
    moreover have "Post (SetFieldOptionMutation ''PVT_1'' (Some ''item_I_2'') ''F_status'' ''o_dev'')
         \<notin> set (events (sync_issue_status_with_pr h0 env_ready 4 None))"
    proof
      assume "Post (SetFieldOptionMutation ''PVT_1'' (Some ''item_I_2'') ''F_status'' ''o_dev'')
         \<in> set (events (sync_issue_status_with_pr h0 env_ready 4 None))"
      with only have "\<exists>i. SetFieldOptionMutation ''PVT_1'' (Some ''item_I_2'') ''F_status'' ''o_dev''
                        = SetFieldOptionMutation (project_node_id h0) i field_id option_id"
        by fastforce
      with ids_eq show False by simp
    qed
    moreover have "RestEditAssignees 2 [''bob'']
         \<notin> set (events (sync_issue_status_with_pr h0 env_ready 4 None))"
    proof
      assume "RestEditAssignees 2 [''bob'']
         \<in> set (events (sync_issue_status_with_pr h0 env_ready 4 None))"
      with edits have "[''bob''] = (if pr_assignees ?pr' = [] then [pr_user ?pr']
                                    else pr_assignees ?pr')"
        by blast
      then show False by simp
    qed
    ultimately show ?thesis by blast
  qed
  from draft ready pull linked_open ok pull' ok' show ?thesis by blast
qed

subsection \<open>A pull request closed without a merge\<close>

text \<open>
  C3: when the pull request is not merged, its state is \<open>closed\<close> and the run returns,
  then for every linked issue the run has posted the mutation that gives the issue's
  project item the option called \<open>Selected for Development\<close>, and if the issue has
  assignees, the run has asked GitHub to remove all of them. The run writes nothing
  else: every mutation it has posted gives the project item of a linked issue that same
  option of that same field, and the run has neither edited the state of an issue nor
  edited assignees.
\<close>

theorem closed_pr_resets_status_and_unassigns:
  assumes pull: "get_pull e k = Inr pr"
      and unmerged: "\<not> pr_merged pr"
      and closed: "pr_state pr = ''closed''"
      and linked: "outcome (get_pull_request_linked_issues h e k c) = Inr linked"
      and ok: "outcome (sync_issue_status_with_pr h e k c) = Inr ()"
      and mem: "issue \<in> set linked"
  shows "\<exists>g item its fs field_id option_id.
           get_issue e (li_number issue) = Inr g
         \<and> outcome (get_issue_info e (gi_node_id g) c) = Inr (item # its)
         \<and> cache_hit h (cache_after (sync_issue_status_with_pr h e k c)) = Some fs
         \<and> status_ids fs ''Selected for Development'' = Inr (field_id, option_id)
         \<and> status_option fs ''Selected for Development'' option_id
         \<and> Post (SetFieldOptionMutation (project_node_id h) (Some (item_id item))
                   field_id option_id)
             \<in> set (events (sync_issue_status_with_pr h e k c))
         \<and> (gi_assignees g \<noteq> [] \<longrightarrow>
               RestRemoveAssignees (li_number issue) (gi_assignees g)
                 \<in> set (events (sync_issue_status_with_pr h e k c)))
         \<and> (\<forall>ev \<in> set (events (sync_issue_status_with_pr h e k c)). is_mutation ev \<longrightarrow>
               (\<exists>issue' \<in> set linked. \<exists>g' item' its'.
                   get_issue e (li_number issue') = Inr g'
                 \<and> outcome (get_issue_info e (gi_node_id g') c) = Inr (item' # its')
                 \<and> ev = Post (SetFieldOptionMutation (project_node_id h) (Some (item_id item'))
                               field_id option_id)))
         \<and> (\<forall>n st as. RestEditState n st \<notin> set (events (sync_issue_status_with_pr h e k c))
                  \<and> RestEditAssignees n as \<notin> set (events (sync_issue_status_with_pr h e k c)))"
proof -
  have t: "target_status pr = ''Selected for Development''"
    using unmerged closed by (simp add: target_status_def)
  from sync_sets_status [OF ok pull linked mem] obtain g item its fs field_id option_id where
      g: "get_issue e (li_number issue) = Inr g"
      and item: "outcome (get_issue_info e (gi_node_id g) c) = Inr (item # its)"
      and fs: "cache_hit h (cache_after (sync_issue_status_with_pr h e k c)) = Some fs"
      and ids: "status_ids fs ''Selected for Development'' = Inr (field_id, option_id)"
      and post: "Post (SetFieldOptionMutation (project_node_id h) (Some (item_id item))
                   field_id option_id)
                 \<in> set (events (sync_issue_status_with_pr h e k c))"
    unfolding t by blast
  have removes: "RestRemoveAssignees (li_number issue) (gi_assignees g)
                  \<in> set (events (sync_issue_status_with_pr h e k c))"
    if "gi_assignees g \<noteq> []"
  proof (rule sync_step_event [OF ok pull linked mem g,
           where step = "remove_step e" and status = "''Selected for Development''"
             and after = "\<lambda>n. print (SetStatusSelected n)"])
    fix ghs
    show "outcome (sync_loops h e pr linked ghs c)
            = outcome (issue_loop (remove_step e) ''Selected for Development''
                         (\<lambda>n. print (SetStatusSelected n)) h e linked ghs c)
          \<and> set (events (issue_loop (remove_step e) ''Selected for Development''
                         (\<lambda>n. print (SetStatusSelected n)) h e linked ghs c))
              \<subseteq> set (events (sync_loops h e pr linked ghs c))"
      by (auto simp: sync_loops_closed [OF unmerged closed])
  next
    fix ghs c'
    show "RestRemoveAssignees (li_number issue) (gi_assignees g)
            \<in> set (events (remove_step e (li_number issue) g ghs c'))"
      using that by (simp add: remove_step_events)
  qed (simp_all add: remove_step_local)
  have only: "\<exists>issue' \<in> set linked. \<exists>g' item' its'.
                   get_issue e (li_number issue') = Inr g'
                 \<and> outcome (get_issue_info e (gi_node_id g') c) = Inr (item' # its')
                 \<and> ev = Post (SetFieldOptionMutation (project_node_id h) (Some (item_id item'))
                               field_id option_id)"
    if ev: "ev \<in> set (events (sync_issue_status_with_pr h e k c))" and mut: "is_mutation ev"
    for ev
  proof -
    from sync_mutations [OF pull linked ev mut] obtain issue' g' item' its' fs' f' o' where
        mem': "issue' \<in> set linked"
        and g': "get_issue e (li_number issue') = Inr g'"
        and item': "outcome (get_issue_info e (gi_node_id g') c) = Inr (item' # its')"
        and fs': "cache_hit h (cache_after (sync_issue_status_with_pr h e k c)) = Some fs'"
        and ids': "status_ids fs' ''Selected for Development'' = Inr (f', o')"
        and ev_eq: "ev = Post (SetFieldOptionMutation (project_node_id h) (Some (item_id item'))
                          f' o')"
      unfolding t by blast
    from fs fs' ids ids' have "f' = field_id" "o' = option_id" by simp_all
    with mem' g' item' ev_eq show ?thesis by blast
  qed
  note writes = sync_closed_writes [OF pull unmerged closed, where h = h and c = c]
  from status_ids_sound [OF ids] have so: "status_option fs ''Selected for Development'' option_id"
    by simp
  show ?thesis
  proof (intro exI conjI ballI impI allI)
    show "get_issue e (li_number issue) = Inr g" by (rule g)
    show "outcome (get_issue_info e (gi_node_id g) c) = Inr (item # its)" by (rule item)
    show "cache_hit h (cache_after (sync_issue_status_with_pr h e k c)) = Some fs" by (rule fs)
    show "status_ids fs ''Selected for Development'' = Inr (field_id, option_id)" by (rule ids)
    show "status_option fs ''Selected for Development'' option_id" by (rule so)
    show "Post (SetFieldOptionMutation (project_node_id h) (Some (item_id item))
                   field_id option_id)
             \<in> set (events (sync_issue_status_with_pr h e k c))" by (rule post)
    show "\<exists>issue' \<in> set linked. \<exists>g' item' its'.
                   get_issue e (li_number issue') = Inr g'
                 \<and> outcome (get_issue_info e (gi_node_id g') c) = Inr (item' # its')
                 \<and> ev = Post (SetFieldOptionMutation (project_node_id h) (Some (item_id item'))
                               field_id option_id)"
      if "ev \<in> set (events (sync_issue_status_with_pr h e k c))" "is_mutation ev" for ev
      using that by (rule only)
    show "RestRemoveAssignees (li_number issue) (gi_assignees g)
            \<in> set (events (sync_issue_status_with_pr h e k c))"
      if "gi_assignees g \<noteq> []" using that by (rule removes)
    show "RestEditState n st \<notin> set (events (sync_issue_status_with_pr h e k c))" for n st
      by (rule writes(1))
    show "RestEditAssignees n as \<notin> set (events (sync_issue_status_with_pr h e k c))" for n as
      by (rule writes(2))
  qed
qed



theorem closed_pr_resets_status_and_unassigns_witness:
  "get_pull env_closed 7
     = Inr \<lparr>pr_merged = False, pr_state = ''closed'', pr_draft = False, pr_assignees = [],
            pr_user = ''carol''\<rparr>
   \<and> outcome (get_pull_request_linked_issues h0 env_closed 7 None)
       = Inr [\<lparr>li_id = ''I_5'', li_body = [], li_number = 5, li_title = []\<rparr>]
   \<and> outcome (sync_issue_status_with_pr h0 env_closed 7 None) = Inr ()
   \<and> Post (SetFieldOptionMutation ''PVT_1'' (Some ''item_I_5'') ''F_status'' ''o_selected'')
       \<in> set (events (sync_issue_status_with_pr h0 env_closed 7 None))
   \<and> RestRemoveAssignees 5 [''alice'']
       \<in> set (events (sync_issue_status_with_pr h0 env_closed 7 None))
   \<and> Post (SetFieldOptionMutation ''PVT_1'' (Some ''item_I_5'') ''F_status'' ''o_done'')
       \<notin> set (events (sync_issue_status_with_pr h0 env_closed 7 None))
   \<and> RestEditState 5 ''closed'' \<notin> set (events (sync_issue_status_with_pr h0 env_closed 7 None))"
proof -
  let ?pr = "\<lparr>pr_merged = False, pr_state = ''closed'', pr_draft = False, pr_assignees = [],
              pr_user = ''carol''\<rparr>"
  let ?i5 = "\<lparr>li_id = ''I_5'', li_body = [], li_number = 5, li_title = []\<rparr>"
  have pull: "get_pull env_closed 7 = Inr ?pr"
    by (simp add: env_closed_def github_def)
  have unmerged: "\<not> pr_merged ?pr" and closed: "pr_state ?pr = ''closed''" by simp_all
  have ok: "outcome (sync_issue_status_with_pr h0 env_closed 7 None) = Inr ()"
    by (simp add: run_closed)
  have mem: "?i5 \<in> set [?i5]" by simp
  from closed_pr_resets_status_and_unassigns [OF pull unmerged closed linked_closed ok mem]
  obtain g item its fs field_id option_id where
      g: "get_issue env_closed (li_number ?i5) = Inr g"
      and item: "outcome (get_issue_info env_closed (gi_node_id g) None) = Inr (item # its)"
      and fs: "cache_hit h0 (cache_after (sync_issue_status_with_pr h0 env_closed 7 None)) = Some fs"
      and ids: "status_ids fs ''Selected for Development'' = Inr (field_id, option_id)"
      and post: "Post (SetFieldOptionMutation (project_node_id h0) (Some (item_id item))
                   field_id option_id)
                 \<in> set (events (sync_issue_status_with_pr h0 env_closed 7 None))"
      and removes: "gi_assignees g \<noteq> [] \<longrightarrow>
               RestRemoveAssignees (li_number ?i5) (gi_assignees g)
                 \<in> set (events (sync_issue_status_with_pr h0 env_closed 7 None))"
      and only: "\<forall>ev \<in> set (events (sync_issue_status_with_pr h0 env_closed 7 None)).
               is_mutation ev \<longrightarrow>
               (\<exists>issue' \<in> set [?i5]. \<exists>g' item' its'.
                   get_issue env_closed (li_number issue') = Inr g'
                 \<and> outcome (get_issue_info env_closed (gi_node_id g') None) = Inr (item' # its')
                 \<and> ev = Post (SetFieldOptionMutation (project_node_id h0) (Some (item_id item'))
                               field_id option_id))"
      and writes: "\<forall>n st as.
               RestEditState n st \<notin> set (events (sync_issue_status_with_pr h0 env_closed 7 None))
             \<and> RestEditAssignees n as
                 \<notin> set (events (sync_issue_status_with_pr h0 env_closed 7 None))"
    by blast
  from g have g_eq: "g = \<lparr>gi_node_id = ''I_5'', gi_state = ''open'', gi_assignees = [''alice'']\<rparr>"
    by (simp add: env_closed_def github_def github_issue_def)
  from item have item_eq: "item_id item = ''item_I_5''"
    by (auto simp: g_eq get_issue_info_def run_graphql_def bindE_def call_def ret_def raise_def
          env_closed_def github_def github_post_def http_200_def)
  from fs have "fs = [status_field]"
    unfolding run_closed by (simp add: cache_hit_def h0_def)
  with ids have ids_eq: "field_id = ''F_status''" "option_id = ''o_selected''"
    by (simp_all add: status_ids_def truthy_str_def status_field_def)
  from post have "Post (SetFieldOptionMutation ''PVT_1'' (Some ''item_I_5'') ''F_status'' ''o_selected'')
       \<in> set (events (sync_issue_status_with_pr h0 env_closed 7 None))"
    by (simp only: item_eq ids_eq) (simp add: h0_def)
  moreover from removes
  have "RestRemoveAssignees 5 [''alice'']
          \<in> set (events (sync_issue_status_with_pr h0 env_closed 7 None))"
    by (simp add: g_eq)
  moreover have "Post (SetFieldOptionMutation ''PVT_1'' (Some ''item_I_5'') ''F_status'' ''o_done'')
       \<notin> set (events (sync_issue_status_with_pr h0 env_closed 7 None))"
  proof
    assume "Post (SetFieldOptionMutation ''PVT_1'' (Some ''item_I_5'') ''F_status'' ''o_done'')
       \<in> set (events (sync_issue_status_with_pr h0 env_closed 7 None))"
    with only have "\<exists>i. SetFieldOptionMutation ''PVT_1'' (Some ''item_I_5'') ''F_status'' ''o_done''
                      = SetFieldOptionMutation (project_node_id h0) i field_id option_id"
      by fastforce
    with ids_eq show False by simp
  qed
  moreover from writes
  have "RestEditState 5 ''closed'' \<notin> set (events (sync_issue_status_with_pr h0 env_closed 7 None))"
    by blast
  ultimately show ?thesis using pull linked_closed ok by blast
qed

subsection \<open>Which issues a merged pull request closes\<close>

lemma issue_loop_close_only_open:
  assumes after_ev: "\<And>m c ev. ev \<in> set (events (after m c)) \<Longrightarrow> \<exists>msg. ev = Print msg"
      and after: "\<And>n c. cache_after (after n c) = c"
      and ev: "RestEditState n st
                 \<in> set (events (issue_loop (close_step e) status after h e' issues ghs c))"
  shows "st = ''closed'' \<and> (\<exists>g. ghs n = Some g \<and> gi_state g = ''open'')
         \<and> n \<in> li_number ` set issues"
  using ev
proof (induction issues arbitrary: ghs c)
  case Nil
  then show ?case by simp
next
  case (Cons x xs)
  let ?m = "li_number x"
  let ?sis = "set_issue_status h e' status (Some ?m) None c"
  from Cons.prems obtain g0 where g0: "ghs ?m = Some g0"
    by (cases "ghs ?m") simp_all
  from Cons.prems g0 consider
      (step) "RestEditState n st \<in> set (events (close_step e ?m g0 ghs c))"
    | (sis) "RestEditState n st \<in> set (events ?sis)"
    | (aft) "RestEditState n st \<in> set (events (after ?m (cache_after ?sis)))"
    | (rest) ghs1 where "outcome (close_step e ?m g0 ghs c) = Inr ghs1"
        "RestEditState n st
           \<in> set (events (issue_loop (close_step e) status after h e' xs ghs1 (cache_after ?sis)))"
    by (auto simp: bindE_proj after split: sum.splits)
  then show ?case
  proof cases
    case step
    then have "n = ?m \<and> st = ''closed'' \<and> gi_state g0 = ''open''"
      by (auto simp: close_step_events split: if_splits sum.splits)
    with g0 show ?thesis by simp
  next
    case sis
    from set_issue_status_events_kind [OF this] show ?thesis by simp
  next
    case aft
    from after_ev [OF this] show ?thesis by simp
  next
    case rest
    from Cons.IH [OF rest(2)] obtain g where
        st: "st = ''closed''" and g: "ghs1 n = Some g" "gi_state g = ''open''"
        and n: "n \<in> li_number ` set xs"
      by blast
    have "\<exists>g'. ghs n = Some g' \<and> gi_state g' = ''open''"
    proof (cases "gi_state g0 = ''open''")
      case True
      show ?thesis
      proof (cases "n = ?m")
        case True
        with g0 \<open>gi_state g0 = ''open''\<close> show ?thesis by simp
      next
        case False
        then have "ghs1 n = ghs n"
          by (intro close_step_local [OF rest(1)]) simp
        with g have "ghs n = Some g" by simp
        with g(2) show ?thesis by blast
      qed
    next
      case False
      with rest(1) have "ghs1 = ghs" by (simp add: close_step_outcome)
      with g show ?thesis by simp
    qed
    with st n show ?thesis by simp
  qed
qed

text \<open>
  C9: in the merged branch an edit of an issue's state is issued only with
  \<open>state="closed"\<close>, only for a linked issue, and only if the state of the issue as
  fetched is \<open>open\<close>. So for a linked issue that is already closed the run issues no
  edit of its state; and when the run returns, it has still posted the mutation that
  sets the issue's status to \<open>Done\<close>.
\<close>

theorem merged_pr_closes_only_open_issues:
  assumes pull: "get_pull e k = Inr pr"
      and merged: "pr_merged pr"
  shows "(RestEditState n st \<in> set (events (sync_issue_status_with_pr h e k c)) \<longrightarrow>
            st = ''closed''
          \<and> (\<exists>g. get_issue e n = Inr g \<and> gi_state g = ''open'')
          \<and> (\<exists>linked. outcome (get_pull_request_linked_issues h e k c) = Inr linked
                \<and> n \<in> li_number ` set linked))
       \<and> (get_issue e n = Inr g \<and> gi_state g \<noteq> ''open'' \<longrightarrow>
            (\<forall>st. RestEditState n st \<notin> set (events (sync_issue_status_with_pr h e k c)))
          \<and> (outcome (sync_issue_status_with_pr h e k c) = Inr ()
              \<and> outcome (get_pull_request_linked_issues h e k c) = Inr linked
              \<and> issue \<in> set linked \<and> li_number issue = n \<longrightarrow>
              (\<exists>item its fs field_id option_id.
                   outcome (get_issue_info e (gi_node_id g) c) = Inr (item # its)
                 \<and> cache_hit h (cache_after (sync_issue_status_with_pr h e k c)) = Some fs
                 \<and> status_ids fs ''Done'' = Inr (field_id, option_id)
                 \<and> Post (SetFieldOptionMutation (project_node_id h) (Some (item_id item))
                           field_id option_id)
                     \<in> set (events (sync_issue_status_with_pr h e k c)))))"
proof -
  have only_open: "st' = ''closed''
          \<and> (\<exists>g. get_issue e n = Inr g \<and> gi_state g = ''open'')
          \<and> (\<exists>linked. outcome (get_pull_request_linked_issues h e k c) = Inr linked
                \<and> n \<in> li_number ` set linked)"
    if ev: "RestEditState n st' \<in> set (events (sync_issue_status_with_pr h e k c))" for st'
  proof -
    from sync_events_cases [OF ev] pull obtain linked' ghs where
        linked': "outcome (get_pull_request_linked_issues h e k c) = Inr linked'"
        and fetched: "outcome (fetch_issues e linked' Map.empty c) = Inr ghs"
        and loops: "RestEditState n st' \<in> set (events (sync_loops h e pr linked' ghs c))"
      by auto
    from loops have "RestEditState n st'
        \<in> set (events (issue_loop (close_step e) ''Done'' (\<lambda>n. print (SetStatusDone n))
                          h e linked' ghs c))"
      by (simp add: sync_loops_merged [OF merged])
    then have "st' = ''closed'' \<and> (\<exists>g. ghs n = Some g \<and> gi_state g = ''open'')
         \<and> n \<in> li_number ` set linked'"
      by (rule issue_loop_close_only_open [rotated 2]) auto
    moreover from this fetch_issues_result [OF fetched]
    have "\<And>g. ghs n = Some g \<Longrightarrow> get_issue e n = Inr g"
      by force
    ultimately show ?thesis using linked' by blast
  qed
  have sets_done: "\<exists>item its fs field_id option_id.
                   outcome (get_issue_info e (gi_node_id g) c) = Inr (item # its)
                 \<and> cache_hit h (cache_after (sync_issue_status_with_pr h e k c)) = Some fs
                 \<and> status_ids fs ''Done'' = Inr (field_id, option_id)
                 \<and> Post (SetFieldOptionMutation (project_node_id h) (Some (item_id item))
                           field_id option_id)
                     \<in> set (events (sync_issue_status_with_pr h e k c))"
    if g: "get_issue e n = Inr g"
      and ok: "outcome (sync_issue_status_with_pr h e k c) = Inr ()"
      and linked: "outcome (get_pull_request_linked_issues h e k c) = Inr linked"
      and mem: "issue \<in> set linked" and n: "li_number issue = n"
  proof -
    have t: "target_status pr = ''Done''"
      using merged by (simp add: target_status_def)
    from sync_sets_status [OF ok pull linked mem] g n show ?thesis
      unfolding t by auto
  qed
  from only_open sets_done show ?thesis by (intro conjI impI allI notI) auto
qed

theorem merged_pr_closes_only_open_issues_witness:
  "get_pull env_merged 42
     = Inr \<lparr>pr_merged = True, pr_state = ''closed'', pr_draft = False, pr_assignees = [],
            pr_user = ''carol''\<rparr>
   \<and> get_issue env_merged 11
       = Inr \<lparr>gi_node_id = ''I_11'', gi_state = ''closed'', gi_assignees = []\<rparr>
   \<and> outcome (sync_issue_status_with_pr h0 env_merged 42 None) = Inr ()
   \<and> RestEditState 11 ''closed'' \<notin> set (events (sync_issue_status_with_pr h0 env_merged 42 None))
   \<and> Post (SetFieldOptionMutation ''PVT_1'' (Some ''item_I_11'') ''F_status'' ''o_done'')
       \<in> set (events (sync_issue_status_with_pr h0 env_merged 42 None))
   \<and> RestEditState 10 ''closed'' \<in> set (events (sync_issue_status_with_pr h0 env_merged 42 None))
   \<and> (\<exists>g. get_issue env_merged 10 = Inr g \<and> gi_state g = ''open'')"
proof -
  let ?pr = "\<lparr>pr_merged = True, pr_state = ''closed'', pr_draft = False, pr_assignees = [],
              pr_user = ''carol''\<rparr>"
  let ?i10 = "\<lparr>li_id = ''I_10'', li_body = [], li_number = 10, li_title = []\<rparr>"
  let ?i11 = "\<lparr>li_id = ''I_11'', li_body = [], li_number = 11, li_title = []\<rparr>"
  let ?g11 = "\<lparr>gi_node_id = ''I_11'', gi_state = ''closed'', gi_assignees = []\<rparr>"
  let ?run = "sync_issue_status_with_pr h0 env_merged 42 None"
  have pull: "get_pull env_merged 42 = Inr ?pr"
    by (simp add: env_merged_def github_def)
  have merged: "pr_merged ?pr" by simp
  have g11: "get_issue env_merged 11 = Inr ?g11"
    by (simp add: env_merged_def github_def github_issue_def)
  have closed: "gi_state ?g11 \<noteq> ''open''" by simp
  have ok: "outcome ?run = Inr ()" by (simp add: run_merged)
  have mem: "?i11 \<in> set [?i10, ?i11]" "li_number ?i11 = 11" by simp_all
  note w = merged_pr_closes_only_open_issues [OF pull merged,
             where h = h0 and c = None and n = 11 and g = ?g11 and issue = ?i11
               and linked = "[?i10, ?i11]" and st = "''closed''"]
  from w g11 closed have no_edit: "RestEditState 11 ''closed'' \<notin> set (events ?run)"
    by blast
  from w g11 closed ok linked_merged mem
  obtain item its fs field_id option_id where
      item: "outcome (get_issue_info env_merged (gi_node_id ?g11) None) = Inr (item # its)"
      and fs: "cache_hit h0 (cache_after ?run) = Some fs"
      and ids: "status_ids fs ''Done'' = Inr (field_id, option_id)"
      and post: "Post (SetFieldOptionMutation (project_node_id h0) (Some (item_id item))
                   field_id option_id) \<in> set (events ?run)"
    by blast
  from item have item_eq: "item_id item = ''item_I_11''"
    by (auto simp: get_issue_info_def run_graphql_def bindE_def call_def ret_def raise_def
          env_merged_def github_def github_post_def http_200_def)
  from fs have "fs = [status_field]"
    unfolding run_merged by (simp add: cache_hit_def h0_def)
  with ids have ids_eq: "field_id = ''F_status''" "option_id = ''o_done''"
    by (simp_all add: status_ids_def truthy_str_def status_field_def)
  from post have sets_done: "Post (SetFieldOptionMutation ''PVT_1'' (Some ''item_I_11'') ''F_status''
                          ''o_done'') \<in> set (events ?run)"
    by (simp only: item_eq ids_eq) (simp add: h0_def)
  have edit10: "RestEditState 10 ''closed'' \<in> set (events ?run)"
    by (simp add: run_merged)
  note w10 = merged_pr_closes_only_open_issues [OF pull merged,
             where h = h0 and c = None and n = 10 and st = "''closed''" and g = ?g11
               and issue = ?i11 and linked = "[?i10, ?i11]"]
  from w10 edit10 have "\<exists>g. get_issue env_merged 10 = Inr g \<and> gi_state g = ''open''"
    by blast
  with pull g11 ok no_edit sets_done edit10 show ?thesis by blast
qed

subsection \<open>The field table is fetched once\<close>

lemma fetch_issues_no_fields_query:
  "filter is_fields_query (events (fetch_issues e issues m c)) = []"
  by (auto simp: filter_empty_conv dest!: fetch_issues_events)

lemma issue_loop_fetches:
  assumes step: "\<And>n g ghs c. cache_after (step n g ghs c) = c"
      and after: "\<And>n c. cache_after (after n c) = c"
      and step_ev: "\<And>n g ghs c. filter is_fields_query (events (step n g ghs c)) = []"
      and after_ev: "\<And>n c. filter is_fields_query (events (after n c)) = []"
  shows "length (filter is_fields_query (events (issue_loop step status after h e issues ghs c)))
           \<le> (if cache_hit h c = None then 1 else 0)"
proof (induction issues arbitrary: ghs c)
  case Nil
  show ?case by simp
next
  case (Cons x xs)
  let ?m = "li_number x"
  let ?sis = "set_issue_status h e status (Some ?m) None c"
  show ?case
  proof (cases "ghs ?m")
    case None
    then show ?thesis by simp
  next
    case (Some g0)
    show ?thesis
    proof (cases "outcome (step ?m g0 ghs c)")
      case (Inl err)
      with Some show ?thesis by (simp add: bindE_proj step_ev)
    next
      case s1: (Inr ghs1)
      show ?thesis
      proof (cases "outcome ?sis")
        case (Inl err)
        with Some s1 set_issue_status_fetches [of h e status "Some ?m" None c]
        show ?thesis by (simp add: bindE_proj step step_ev)
      next
        case s2: (Inr u)
        then have "outcome ?sis = Inr ()" by simp
        from set_issue_status_fills_cache [OF this] obtain fs where
            fs: "cache_hit h (cache_after ?sis) = Some fs" ..
        have rest: "filter is_fields_query
                      (events (issue_loop step status after h e xs ghs1 (cache_after ?sis))) = []"
          using Cons.IH [of ghs1 "cache_after ?sis"] fs by simp
        from Some s1 s2 rest set_issue_status_fetches [of h e status "Some ?m" None c]
        show ?thesis
          by (cases "outcome (after ?m (cache_after ?sis))")
             (simp_all add: bindE_proj step after step_ev after_ev)
      qed
    qed
  qed
qed

lemma sync_loops_fetches:
  "length (filter is_fields_query (events (sync_loops h e pr linked ghs c)))
     \<le> (if cache_hit h c = None then 1 else 0)"
proof -
  consider (merged) "pr_merged pr"
    | (closed) "\<not> pr_merged pr" "pr_state pr = ''closed''"
    | (opened) "\<not> pr_merged pr" "pr_state pr \<noteq> ''closed''"
    by blast
  then show ?thesis
  proof cases
    case merged
    have "length (filter is_fields_query
            (events (issue_loop (close_step e) ''Done'' (\<lambda>n. print (SetStatusDone n))
                       h e linked ghs c)))
          \<le> (if cache_hit h c = None then 1 else 0)"
      by (rule issue_loop_fetches) (simp_all add: close_step_events split: sum.splits)
    then show ?thesis by (simp add: sync_loops_merged [OF merged])
  next
    case closed
    have "length (filter is_fields_query
            (events (issue_loop (remove_step e) ''Selected for Development''
                       (\<lambda>n. print (SetStatusSelected n)) h e linked ghs c)))
          \<le> (if cache_hit h c = None then 1 else 0)"
      by (rule issue_loop_fetches) (simp_all add: remove_step_events split: sum.splits)
    then show ?thesis by (simp add: sync_loops_closed [OF closed])
  next
    case opened
    have "length (filter is_fields_query
            (events (issue_loop (assign_step e (target_assignees pr))
                       (if pr_draft pr then ''In Development'' else ''Ready For Review'')
                       (\<lambda>n. ret ()) h e linked ghs c)))
          \<le> (if cache_hit h c = None then 1 else 0)"
      by (rule issue_loop_fetches) (simp_all add: assign_step_events split: sum.splits)
    then show ?thesis by (simp add: sync_loops_open [OF opened])
  qed
qed

lemma sync_fetches:
  "length (filter is_fields_query (events (sync_issue_status_with_pr h e k c))) \<le> 1"
proof (cases "get_pull e k")
  case (Inl err)
  then show ?thesis by (simp add: sync_issue_status_with_pr_def bindE_proj)
next
  case pull: (Inr pr)
  show ?thesis
  proof (cases "outcome (get_pull_request_linked_issues h e k c)")
    case (Inl err)
    with pull show ?thesis by (simp add: sync_issue_status_with_pr_def bindE_proj)
  next
    case linked: (Inr linked)
    show ?thesis
    proof (cases "outcome (fetch_issues e linked Map.empty c)")
      case (Inl err)
      with pull linked show ?thesis
        by (simp add: sync_issue_status_with_pr_def bindE_proj fetch_issues_no_fields_query)
    next
      case fetched: (Inr ghs)
      have "length (filter is_fields_query (events (sync_loops h e pr linked ghs c))) \<le> 1"
        using sync_loops_fetches [of h e pr linked ghs c] by (simp split: if_splits)
      then show ?thesis
        unfolding sync_unfold(3) [OF pull linked fetched]
        by (simp add: fetch_issues_no_fields_query)
    qed
  qed
qed

text \<open>
  C8: a run of \<open>sync_issue_status_with_pr\<close> posts the query for the project's field
  table at most once. A call of \<open>get_project_fields\<close> that finds nothing cached for
  its handler posts the query once; once a call has returned, every later call on the
  same handler returns the same list without posting anything, whatever GitHub would
  answer by then.
\<close>

theorem project_fields_fetched_once:
  "length (filter is_fields_query (events (sync_issue_status_with_pr h e k c))) \<le> 1
   \<and> (cache_hit h c = None \<longrightarrow>
        events (get_project_fields h e c) = [Post (ProjectFieldsQuery (project_node_id h))])
   \<and> (outcome (get_project_fields h e c) = Inr fs \<longrightarrow>
        get_project_fields h e' (cache_after (get_project_fields h e c))
          = (Inr fs, cache_after (get_project_fields h e c), [])
        \<and> get_project_fields h e'' (cache_after (get_project_fields h e'
                                        (cache_after (get_project_fields h e c))))
          = (Inr fs, cache_after (get_project_fields h e c), []))"
proof -
  have again: "get_project_fields h e' (cache_after (get_project_fields h e c))
          = (Inr fs, cache_after (get_project_fields h e c), [])"
    if "outcome (get_project_fields h e c) = Inr fs" for e'
    using get_project_fields_stored [OF that] by (rule get_project_fields_hit)
  show ?thesis
    using sync_fetches [of h e k c] again
    by (simp add: get_project_fields_events)
qed

theorem project_fields_fetched_once_witness:
  "cache_hit h0 None = None
   \<and> get_project_fields h0 env_merged None
       = (Inr [status_field], Some (0, [status_field]), [Post (ProjectFieldsQuery ''PVT_1'')])
   \<and> get_project_fields h0 env_201 (Some (0, [status_field]))
       = (Inr [status_field], Some (0, [status_field]), [])
   \<and> length (filter is_fields_query (events (sync_issue_status_with_pr h0 env_merged 42 None))) = 1"
proof -
  have miss: "cache_hit h0 None = None" by (simp add: cache_hit_def)
  have first: "get_project_fields h0 env_merged None
       = (Inr [status_field], Some (0, [status_field]), [Post (ProjectFieldsQuery ''PVT_1'')])"
    by (simp add: program_defs scenario_defs)
  then have fs: "outcome (get_project_fields h0 env_merged None) = Inr [status_field]"
    and ca: "cache_after (get_project_fields h0 env_merged None) = Some (0, [status_field])"
    by simp_all
  note w = project_fields_fetched_once
             [where h = h0 and e = env_merged and c = None and fs = "[status_field]"
                and e' = env_201 and e'' = env_201 and k = 42]
  from w fs have "get_project_fields h0 env_201 (cache_after (get_project_fields h0 env_merged None))
          = (Inr [status_field], cache_after (get_project_fields h0 env_merged None), [])"
    by blast
  then have second: "get_project_fields h0 env_201 (Some (0, [status_field]))
       = (Inr [status_field], Some (0, [status_field]), [])"
    by (simp only: ca)
  have once: "length (filter is_fields_query
                (events (sync_issue_status_with_pr h0 env_merged 42 None))) = 1"
    by (simp add: run_merged)
  from miss first second once show ?thesis by blast
qed

subsection \<open>Which failures are caught\<close>

text \<open>Nothing but the two steps on assignees reads the two assignee calls.\<close>

lemma run_graphql_unread [simp]:
  "run_graphql (e\<lparr>remove_from_assignees := r, edit_assignees := a\<rparr>) = run_graphql e"
  by (rule ext) (simp add: run_graphql_def cong: if_cong option.case_cong)

lemma get_issue_info_unread [simp]:
  "get_issue_info (e\<lparr>remove_from_assignees := r, edit_assignees := a\<rparr>) = get_issue_info e"
  by (rule ext) (simp add: get_issue_info_def cong: if_cong option.case_cong)

lemma fetch_project_fields_unread [simp]:
  "fetch_project_fields h (e\<lparr>remove_from_assignees := r, edit_assignees := a\<rparr>)
     = fetch_project_fields h e"
  by (simp add: fetch_project_fields_def cong: if_cong option.case_cong)

lemma get_project_fields_unread [simp]:
  "get_project_fields h (e\<lparr>remove_from_assignees := r, edit_assignees := a\<rparr>)
     = get_project_fields h e"
  by (rule ext) (simp add: get_project_fields_def cong: if_cong option.case_cong)

lemma get_status_field_id_unread [simp]:
  "get_status_field_id h (e\<lparr>remove_from_assignees := r, edit_assignees := a\<rparr>)
     = get_status_field_id h e"
  by (rule ext) (simp add: get_status_field_id_def cong: if_cong option.case_cong)

lemma set_field_option_unread [simp]:
  "set_field_option h (e\<lparr>remove_from_assignees := r, edit_assignees := a\<rparr>)
     = set_field_option h e"
  by (rule ext)+ (simp add: set_field_option_def cong: if_cong option.case_cong)

lemma resolve_issue_id_unread [simp]:
  "resolve_issue_id (e\<lparr>remove_from_assignees := r, edit_assignees := a\<rparr>) = resolve_issue_id e"
  by (rule ext)+ (simp add: resolve_issue_id_def cong: if_cong option.case_cong)

lemma set_issue_status_unread [simp]:
  "set_issue_status h (e\<lparr>remove_from_assignees := r, edit_assignees := a\<rparr>)
     = set_issue_status h e"
  by (rule ext)+ (simp add: set_issue_status_def cong: if_cong option.case_cong)

lemma linked_issues_unread [simp]:
  "get_pull_request_linked_issues h (e\<lparr>remove_from_assignees := r, edit_assignees := a\<rparr>)
     = get_pull_request_linked_issues h e"
  by (rule ext) (simp add: get_pull_request_linked_issues_def cong: if_cong option.case_cong)

lemma close_step_unread [simp]:
  "close_step (e\<lparr>remove_from_assignees := r, edit_assignees := a\<rparr>) = close_step e"
  by (rule ext)+ (simp add: close_step_def cong: if_cong option.case_cong)

lemma fetch_issues_unread [simp]:
  "fetch_issues (e\<lparr>remove_from_assignees := r, edit_assignees := a\<rparr>) issues m
     = fetch_issues e issues m"
  by (induction issues arbitrary: m) simp_all

lemma issue_loop_unread [simp]:
  "issue_loop step status after h (e\<lparr>remove_from_assignees := r, edit_assignees := a\<rparr>)
       issues ghs
     = issue_loop step status after h e issues ghs"
  by (induction issues arbitrary: ghs) (simp_all cong: option.case_cong)


















end
